theory Spec2Isabelle
  imports Complex_Main "HOL-Library.Log_Nat"
begin

section \<open>Python numbers\<close>

text \<open>
  The program mixes Python \<open>int\<close>s (the JSON fields) with Python \<open>float\<close>s (the
  command-line offsets and every value obtained with \<open>/\<close>). An \<open>int\<close> is an
  \<^typ>\<open>int\<close>. A finite \<open>float\<close> is the rational number it denotes, and every
  float operation is the exact operation followed by rounding to the nearest binary64
  value, ties to even (\<open>fl\<close>): 53 significant bits, least exponent \<open>- 1074\<close>.
  The exponent is not capped above: a result of magnitude \<open>2 ^ 1024\<close> or more (where
  CPython gives \<open>inf\<close>, or raises OverflowError for \<open>/\<close>), the values \<open>inf\<close> and
  \<open>nan\<close>, and the sign of zero are outside this model.
\<close>

type_synonym pyfloat = rat

definition round_half_even :: "rat \<Rightarrow> int" where
  "round_half_even x =
     (let f = \<lfloor>x\<rfloor>; r = x - of_int f
      in if r < 1 / 2 then f
         else if 1 / 2 < r then f + 1
         else if even f then f else f + 1)"

text \<open>\<open>ilog2 x\<close> is the integer \<open>e\<close> with \<open>2 ^ e \<le> x < 2 ^ (e + 1)\<close>, for \<open>0 < x\<close>.\<close>

definition ilog2 :: "rat \<Rightarrow> int" where
  "ilog2 x = (if 1 \<le> x then bitlen \<lfloor>x\<rfloor> - 1 else - bitlen (\<lceil>1 / x\<rceil> - 1))"

text \<open>The exponent of the unit in the last place of the binary64 values around \<open>x\<close>.\<close>

definition ulp_exp :: "rat \<Rightarrow> int" where
  "ulp_exp x = max (ilog2 \<bar>x\<bar>) (- 1022) - 52"

definition fl :: "rat \<Rightarrow> pyfloat" where
  "fl x = (if x = 0 then 0
           else of_int (round_half_even (x / 2 powi ulp_exp x)) * 2 powi ulp_exp x)"

text \<open>\<open>a / b\<close> on two ints (true division), \<open>x - y\<close> and \<open>x + y\<close> on floats.\<close>

definition truediv :: "int \<Rightarrow> int \<Rightarrow> pyfloat" where
  "truediv a b = fl (of_int a / of_int b)"

definition fsub :: "pyfloat \<Rightarrow> pyfloat \<Rightarrow> pyfloat" where
  "fsub x y = fl (x - y)"

definition fadd :: "pyfloat \<Rightarrow> pyfloat \<Rightarrow> pyfloat" where
  "fadd x y = fl (x + y)"

text \<open>A rational is a binary64 value when rounding leaves it alone.\<close>

definition representable :: "rat \<Rightarrow> bool" where
  "representable x = (fl x = x)"

section \<open>Python strings\<close>

text \<open>The decimal digit \<open>d\<close>, for \<open>0 \<le> d \<le> 9\<close>.\<close>

definition digit_char :: "int \<Rightarrow> char" where
  "digit_char d =
     (if d = 0 then CHR ''0'' else if d = 1 then CHR ''1'' else if d = 2 then CHR ''2''
      else if d = 3 then CHR ''3'' else if d = 4 then CHR ''4'' else if d = 5 then CHR ''5''
      else if d = 6 then CHR ''6'' else if d = 7 then CHR ''7'' else if d = 8 then CHR ''8''
      else CHR ''9'')"

text \<open>The decimal digits of \<open>n\<close>, for \<open>0 \<le> n\<close>.\<close>

function str_nat :: "int \<Rightarrow> string" where
  "str_nat n = (if n < 10 then [digit_char n] else str_nat (n div 10) @ [digit_char (n mod 10)])"
  by pat_completeness auto
termination
  by (relation "measure nat") auto

declare str_nat.simps [simp del]

text \<open>\<open>str(i)\<close> for an int, as an f-string field \<open>{i}\<close> prints it.\<close>

definition str_int :: "int \<Rightarrow> string" where
  "str_int i = (if i < 0 then ''-'' @ str_nat (- i) else str_nat i)"

text \<open>
  The format \<open>{x:.3f}\<close>: the exact value of the float, rounded to three decimals
  (ties to even), with the sign of \<open>x\<close> kept.
\<close>

definition fmt3 :: "pyfloat \<Rightarrow> string" where
  "fmt3 x =
     (let n = round_half_even (\<bar>x\<bar> * 1000)
      in (if x < 0 then ''-'' else '''') @ str_nat (n div 1000) @ ''.'' @
         [digit_char (n div 100 mod 10), digit_char (n div 10 mod 10), digit_char (n mod 10)])"

text \<open>\<open>' '.join(cmd)\<close>\<close>

fun join_space :: "string list \<Rightarrow> string" where
  "join_space [] = ''''"
| "join_space [x] = x"
| "join_space (x # y # ys) = x @ '' '' @ join_space (y # ys)"

text \<open>\<open>os.path.join(a, b)\<close> of \<open>posixpath\<close>.\<close>

definition path_join :: "string \<Rightarrow> string \<Rightarrow> string" where
  "path_join a b =
     (if take 1 b = ''/'' then b
      else if a = '''' \<or> last a = CHR ''/'' then a @ b
      else a @ ''/'' @ b)"

section \<open>Data\<close>

text \<open>
  A match record of the input file: the object's \<open>number\<close> (an int) and \<open>name\<close>
  (a string), each of which may be absent, and its event fields, from event key to
  milliseconds. \<open>"number" in m\<close> is \<open>number m \<noteq> None\<close>, \<open>key in m\<close> for an event key
  is \<open>events m key \<noteq> None\<close>, and \<open>m[key]\<close> is \<open>the (events m key)\<close> under that guard.
\<close>

record match_rec =
  number :: "int option"
  name :: "string option"
  events :: "string \<rightharpoonup> int"

text \<open>
  The parsed command line (\<open>argparse\<close>). \<open>args.range\<close> is \<open>range_vals\<close>, absent or
  two floats; \<open>args.start\<close> and \<open>args.end\<close> are \<open>start_key\<close> and \<open>end_key\<close>.
\<close>

record args =
  json :: string
  video :: string
  range_vals :: "(pyfloat \<times> pyfloat) option"
  offset :: pyfloat
  start_key :: string
  end_key :: string
  startOffset :: pyfloat
  endOffset :: pyfloat
  out :: string

text \<open>
  What the run reads from the file system: which paths are files and directories, and
  the object each JSON file holds, as a map from its top-level keys to lists of match
  records.
\<close>

record env =
  isfile :: "string \<Rightarrow> bool"
  isdir :: "string \<Rightarrow> bool"
  load_json :: "string \<Rightarrow> (string \<rightharpoonup> match_rec list)"

text \<open>
  What the run does, in program order: a line printed to standard output or standard
  error, \<open>os.makedirs\<close>, and \<open>subprocess.run\<close> of a command line.
\<close>

datatype event =
  Stdout string
| Stderr string
| Makedirs string
| Subprocess "string list"

text \<open>
  The external tool: from the command line and the state of the world to the exit
  status and the captured standard error of the child, and the world after it.
\<close>

type_synonym 'w tool = "string list \<Rightarrow> 'w \<Rightarrow> (int \<times> string) \<times> 'w"

section \<open>The program\<close>

definition filter_matches :: "match_rec list \<Rightarrow> (pyfloat \<times> pyfloat) option \<Rightarrow> match_rec list" where
  "filter_matches matches rv =
     (case rv of
        None \<Rightarrow> matches
      | Some (start_num, end_num) \<Rightarrow>
          filter (\<lambda>m. number m \<noteq> None \<and>
                       start_num \<le> of_int (the (number m)) \<and>
                       of_int (the (number m)) \<le> end_num) matches)"

text \<open>The sort key \<open>m.get("number", 0)\<close>.\<close>

definition number_key :: "match_rec \<Rightarrow> int" where
  "number_key m = (case number m of None \<Rightarrow> 0 | Some n \<Rightarrow> n)"

text \<open>\<open>sorted\<close> is stable, as \<^const>\<open>sort_key\<close> is.\<close>

definition sorted_matches :: "match_rec list \<Rightarrow> match_rec list" where
  "sorted_matches matches = sort_key number_key matches"

text \<open>The \<open>for\<close> loop of \<open>find_reference_time\<close>, over the sorted matches.\<close>

fun first_start :: "string \<Rightarrow> match_rec list \<Rightarrow> pyfloat option" where
  "first_start start_event [] = None"
| "first_start start_event (m # ms) =
     (if events m start_event \<noteq> None then Some (truediv (the (events m start_event)) 1000)
      else first_start start_event ms)"

definition find_reference_time :: "match_rec list \<Rightarrow> string \<Rightarrow> pyfloat option" where
  "find_reference_time matches start_event = first_start start_event (sorted_matches matches)"

definition ffmpeg_cmd :: "string \<Rightarrow> pyfloat \<Rightarrow> pyfloat \<Rightarrow> string \<Rightarrow> string list" where
  "ffmpeg_cmd video_file start_time duration output_file =
     [''ffmpeg'', ''-y'', ''-i'', video_file, ''-ss'', fmt3 start_time,
      ''-t'', fmt3 duration, ''-c'', ''copy'', output_file]"

text \<open>The line \<open>run_ffmpeg\<close> prints to standard error when the tool fails.\<close>

definition error_processing :: "string \<Rightarrow> string \<Rightarrow> event" where
  "error_processing output_file err =
     Stderr (''Error processing '' @ output_file @ '':'' @ [CHR 0x0A] @ err)"

definition run_ffmpeg ::
  "'w tool \<Rightarrow> string \<Rightarrow> pyfloat \<Rightarrow> pyfloat \<Rightarrow> string \<Rightarrow> 'w \<Rightarrow> event list \<times> 'w" where
  "run_ffmpeg tool video_file start_time duration output_file w =
     (let cmd = ffmpeg_cmd video_file start_time duration output_file;
          ((returncode, err), w') = tool cmd w
      in ([Stdout (''Running: '' @ join_space cmd), Subprocess cmd] @
          (if returncode \<noteq> 0 then [error_processing output_file err] else []),
          w'))"

text \<open>\<open>match.get("name", f"Match_{match.get('number', 'unknown')}")\<close>\<close>

definition match_name :: "match_rec \<Rightarrow> string" where
  "match_name m =
     (case name m of
        Some s \<Rightarrow> s
      | None \<Rightarrow> ''Match_'' @ (case number m of Some n \<Rightarrow> str_int n | None \<Rightarrow> ''unknown''))"

definition video_start_time :: "args \<Rightarrow> pyfloat \<Rightarrow> match_rec \<Rightarrow> pyfloat" where
  "video_start_time a ref_time m =
     fadd (fadd (fsub (truediv (the (events m (start_key a))) 1000) ref_time) (offset a))
       (startOffset a)"

definition video_end_time :: "args \<Rightarrow> pyfloat \<Rightarrow> match_rec \<Rightarrow> pyfloat" where
  "video_end_time a ref_time m =
     fadd (fadd (fsub (truediv (the (events m (end_key a))) 1000) ref_time) (offset a))
       (endOffset a)"

definition duration :: "args \<Rightarrow> pyfloat \<Rightarrow> match_rec \<Rightarrow> pyfloat" where
  "duration a ref_time m = fsub (video_end_time a ref_time m) (video_start_time a ref_time m)"

definition output_file :: "args \<Rightarrow> match_rec \<Rightarrow> string" where
  "output_file a m = path_join (out a) (''full-match-'' @ match_name m @ ''.mkv'')"

text \<open>
  The lines the loop prints: the two \<open>missing event ... Skipping\<close> messages (standard
  output), the \<open>Invalid duration\<close> message (standard error), and the four lines before
  an extraction.
\<close>

definition missing_event_line :: "match_rec \<Rightarrow> string \<Rightarrow> event" where
  "missing_event_line m key =
     Stdout (''Match '' @ match_name m @ '' missing event '' @ key @ ''. Skipping'')"

definition invalid_duration_line :: "args \<Rightarrow> pyfloat \<Rightarrow> match_rec \<Rightarrow> event" where
  "invalid_duration_line a ref_time m =
     Stderr (''Error: Invalid duration for match '' @ match_name m @
             '' (start: '' @ fmt3 (video_start_time a ref_time m) @
             '', end: '' @ fmt3 (video_end_time a ref_time m) @ ''). Skipping'')"

definition processing_lines :: "args \<Rightarrow> pyfloat \<Rightarrow> match_rec \<Rightarrow> event list" where
  "processing_lines a ref_time m =
     [Stdout (''Processing match '' @ match_name m @ '':''),
      Stdout (''  Start event time (wall clock): '' @
              fmt3 (truediv (the (events m (start_key a))) 1000) @
              ''s, video start: '' @ fmt3 (video_start_time a ref_time m) @ ''s''),
      Stdout (''  End event time (wall clock):   '' @
              fmt3 (truediv (the (events m (end_key a))) 1000) @
              ''s, video end:   '' @ fmt3 (video_end_time a ref_time m) @ ''s''),
      Stdout (''  Duration: '' @ fmt3 (duration a ref_time m) @ ''s'')]"

text \<open>The body of the loop of \<open>main\<close>, for one match.\<close>

definition process_match ::
  "'w tool \<Rightarrow> args \<Rightarrow> pyfloat \<Rightarrow> match_rec \<Rightarrow> 'w \<Rightarrow> event list \<times> 'w" where
  "process_match tool a ref_time m w =
     (if events m (start_key a) = None then ([missing_event_line m (start_key a)], w)
      else if events m (end_key a) = None then ([missing_event_line m (end_key a)], w)
      else if duration a ref_time m \<le> 0 then ([invalid_duration_line a ref_time m], w)
      else
        (let (log, w') = run_ffmpeg tool (video a) (video_start_time a ref_time m)
                           (duration a ref_time m) (output_file a m) w
         in (processing_lines a ref_time m @ log, w')))"

text \<open>The loop of \<open>main\<close> over the matches in the order given.\<close>

fun process_matches ::
  "'w tool \<Rightarrow> args \<Rightarrow> pyfloat \<Rightarrow> match_rec list \<Rightarrow> 'w \<Rightarrow> event list \<times> 'w" where
  "process_matches tool a ref_time [] w = ([], w)"
| "process_matches tool a ref_time (m # ms) w =
     (let (log, w') = process_match tool a ref_time m w;
          (logs, w'') = process_matches tool a ref_time ms w'
      in (log @ logs, w''))"

text \<open>
  \<open>os.makedirs(args.out, exist_ok=True)\<close> when the output directory is missing, and
  the lines \<open>main\<close> itself prints.
\<close>

definition makedirs_log :: "env \<Rightarrow> args \<Rightarrow> event list" where
  "makedirs_log e a = (if \<not> isdir e (out a) then [Makedirs (out a)] else [])"

definition json_not_found :: "args \<Rightarrow> event" where
  "json_not_found a = Stderr (''JSON file '' @ json a @ '' not found.'')"

definition video_not_found :: "args \<Rightarrow> event" where
  "video_not_found a = Stderr (''Video file '' @ video a @ '' not found.'')"

definition no_matches_list :: event where
  "no_matches_list =
     Stderr (''JSON file does not contain '' @ [CHR 0x27] @ ''matches'' @ [CHR 0x27] @ '' list.'')"

definition no_matches_found :: event where
  "no_matches_found = Stderr ''No matches found for the specified range.''"

definition no_start_event :: "args \<Rightarrow> event" where
  "no_start_event a =
     Stderr (''No matches in the specified range contain the start event key '' @
             [CHR 0x27] @ start_key a @ [CHR 0x27] @ ''.'')"

definition reference_line :: "args \<Rightarrow> pyfloat \<Rightarrow> event" where
  "reference_line a ref_time =
     Stdout (''Reference event time (from first match with '' @ [CHR 0x27] @ start_key a @
             [CHR 0x27] @ ''): '' @ fmt3 ref_time @ '' seconds'')"

text \<open>
  \<open>main\<close>: the exit status of the process, what it did, and the world it leaves.
  \<open>sys.exit(n)\<close> ends the run with status \<open>n\<close>; a run that reaches the end of
  \<open>main\<close> has status 0. This is the run in which no call raises: the output directory
  can be created, the input file holds a JSON object whose match records have the fields
  described above, and the tool can be started. The next section follows the program
  through the exceptions.
\<close>

definition main :: "'w tool \<Rightarrow> env \<Rightarrow> args \<Rightarrow> 'w \<Rightarrow> int \<times> event list \<times> 'w" where
  "main tool e a w =
     (if \<not> isfile e (json a) then (1, [json_not_found a], w)
      else if \<not> isfile e (video a) then (1, [video_not_found a], w)
      else
        (let data = load_json e (json a)
         in if data ''matches'' = None then (1, makedirs_log e a @ [no_matches_list], w)
            else
              (let matches = the (data ''matches'');
                   filtered_matches = filter_matches matches (range_vals a)
               in if filtered_matches = []
                  then (0, makedirs_log e a @ [no_matches_found], w)
                  else
                    (case find_reference_time filtered_matches (start_key a) of
                       None \<Rightarrow> (1, makedirs_log e a @ [no_start_event a], w)
                     | Some ref_time \<Rightarrow>
                         (let (log, w') = process_matches tool a ref_time
                                            (sorted_matches filtered_matches) w
                          in (0, makedirs_log e a @ [reference_line a ref_time] @ log, w'))))))"

section \<open>The program with its exceptions\<close>

text \<open>
  No call of the program stands inside a \<open>try\<close> statement, so an exception ends the
  run where it is raised: CPython prints the traceback to standard error and the process
  ends with status 1. On the inputs of this model four calls can raise: \<open>open\<close> and
  \<open>json.load\<close> in \<open>load_json\<close> (the file cannot be read, or does not hold JSON),
  \<open>os.makedirs\<close> (the directory cannot be created), \<open>/\<close> on an int (OverflowError,
  when the quotient is too large for a float) and \<open>subprocess.run\<close> (the tool cannot be
  started, or its output cannot be decoded). The definitions of this section follow the
  program through these calls; where none of them raises they give the run that
  \<open>main\<close> gives. Only the class of an exception is kept.
\<close>

datatype exception = JSONDecodeError | OSError | OverflowError

text \<open>
  How the process ends: \<open>sys.exit(n)\<close> or the end of \<open>main\<close>, with a status, or an
  exception that nothing catches. The exit status of the process is then 1.
\<close>

datatype outcome = Exit int | Uncaught exception

fun status :: "outcome \<Rightarrow> int" where
  "status (Exit n) = n"
| "status (Uncaught x) = 1"

text \<open>
  The file system with its failures: for a path, the exception that \<open>load_json\<close> and
  \<open>os.makedirs\<close> raise on it, if any.
\<close>

record raising_env =
  files :: env
  load_json_raises :: "string \<Rightarrow> exception option"
  makedirs_raises :: "string \<Rightarrow> exception option"

text \<open>
  The external tool, as \<open>subprocess.run\<close> sees it: the call raises, or it returns the
  exit status and the captured standard error of the child. A tool of the first kind
  never raises.
\<close>

type_synonym 'w raising_tool = "string list \<Rightarrow> 'w \<Rightarrow> (exception + int \<times> string) \<times> 'w"

definition returning :: "'w tool \<Rightarrow> 'w raising_tool" where
  "returning tool cmd w = (let (result, w') = tool cmd w in (Inr result, w'))"

text \<open>
  \<open>a / b\<close> on two ints raises OverflowError when the rounded quotient does not fit a
  float, that is, when its magnitude reaches \<open>2 ^ 1024\<close>.
\<close>

definition truediv_raising :: "int \<Rightarrow> int \<Rightarrow> exception + pyfloat" where
  "truediv_raising a b =
     (if 2 ^ 1024 \<le> \<bar>truediv a b\<bar> then Inl OverflowError else Inr (truediv a b))"

text \<open>\<open>find_reference_time\<close>, whose division may raise.\<close>

fun first_start_raising :: "string \<Rightarrow> match_rec list \<Rightarrow> exception + pyfloat option" where
  "first_start_raising start_event [] = Inr None"
| "first_start_raising start_event (m # ms) =
     (if events m start_event \<noteq> None
      then (case truediv_raising (the (events m start_event)) 1000 of
              Inl x \<Rightarrow> Inl x
            | Inr t \<Rightarrow> Inr (Some t))
      else first_start_raising start_event ms)"

definition find_reference_time_raising ::
  "match_rec list \<Rightarrow> string \<Rightarrow> exception + pyfloat option" where
  "find_reference_time_raising matches start_event =
     first_start_raising start_event (sorted_matches matches)"

text \<open>
  \<open>run_ffmpeg\<close>: the \<open>Running\<close> line is printed before \<open>subprocess.run\<close> is
  called, so it is there also when the call raises.
\<close>

definition run_ffmpeg_raising ::
  "'w raising_tool \<Rightarrow> string \<Rightarrow> pyfloat \<Rightarrow> pyfloat \<Rightarrow> string \<Rightarrow> 'w \<Rightarrow>
     exception option \<times> event list \<times> 'w" where
  "run_ffmpeg_raising tool video_file start_time dur file w =
     (let cmd = ffmpeg_cmd video_file start_time dur file;
          (result, w') = tool cmd w
      in case result of
           Inl x \<Rightarrow> (Some x, [Stdout (''Running: '' @ join_space cmd), Subprocess cmd], w')
         | Inr (returncode, err) \<Rightarrow>
             (None,
              [Stdout (''Running: '' @ join_space cmd), Subprocess cmd] @
              (if returncode \<noteq> 0 then [error_processing file err] else []),
              w'))"

text \<open>
  The body of the loop: the two divisions come after the tests for the keys and before
  the test of the duration, the start event first. The values they return are those of
  \<open>truediv\<close>, which the positions and the printed lines are written with.
\<close>

definition process_match_raising ::
  "'w raising_tool \<Rightarrow> args \<Rightarrow> pyfloat \<Rightarrow> match_rec \<Rightarrow> 'w \<Rightarrow>
     exception option \<times> event list \<times> 'w" where
  "process_match_raising tool a ref_time m w =
     (if events m (start_key a) = None then (None, [missing_event_line m (start_key a)], w)
      else if events m (end_key a) = None then (None, [missing_event_line m (end_key a)], w)
      else
        (case truediv_raising (the (events m (start_key a))) 1000 of
           Inl x \<Rightarrow> (Some x, [], w)
         | Inr start_event_time \<Rightarrow>
             (case truediv_raising (the (events m (end_key a))) 1000 of
                Inl x \<Rightarrow> (Some x, [], w)
              | Inr end_event_time \<Rightarrow>
                  if duration a ref_time m \<le> 0
                  then (None, [invalid_duration_line a ref_time m], w)
                  else
                    (let (x, log, w') =
                           run_ffmpeg_raising tool (video a) (video_start_time a ref_time m)
                             (duration a ref_time m) (output_file a m) w
                     in (x, processing_lines a ref_time m @ log, w')))))"

text \<open>The loop, which ends at the first exception.\<close>

fun process_matches_raising ::
  "'w raising_tool \<Rightarrow> args \<Rightarrow> pyfloat \<Rightarrow> match_rec list \<Rightarrow> 'w \<Rightarrow>
     exception option \<times> event list \<times> 'w" where
  "process_matches_raising tool a ref_time [] w = (None, [], w)"
| "process_matches_raising tool a ref_time (m # ms) w =
     (let (x, log, w') = process_match_raising tool a ref_time m w
      in case x of
           Some exn \<Rightarrow> (Some exn, log, w')
         | None \<Rightarrow>
             (let (y, logs, w'') = process_matches_raising tool a ref_time ms w'
              in (y, log @ logs, w'')))"

text \<open>
  \<open>main\<close> with the exceptions: \<open>os.makedirs\<close> is called when the output directory
  is missing, then \<open>load_json\<close>, then \<open>find_reference_time\<close>, then the loop.
\<close>

definition main_raising ::
  "'w raising_tool \<Rightarrow> raising_env \<Rightarrow> args \<Rightarrow> 'w \<Rightarrow> outcome \<times> event list \<times> 'w" where
  "main_raising tool e a w =
     (if \<not> isfile (files e) (json a) then (Exit 1, [json_not_found a], w)
      else if \<not> isfile (files e) (video a) then (Exit 1, [video_not_found a], w)
      else if \<not> isdir (files e) (out a) \<and> makedirs_raises e (out a) \<noteq> None
      then (Uncaught (the (makedirs_raises e (out a))), makedirs_log (files e) a, w)
      else
        (case load_json_raises e (json a) of
           Some x \<Rightarrow> (Uncaught x, makedirs_log (files e) a, w)
         | None \<Rightarrow>
             (let data = load_json (files e) (json a)
              in if data ''matches'' = None
                 then (Exit 1, makedirs_log (files e) a @ [no_matches_list], w)
                 else
                   (let matches = the (data ''matches'');
                        filtered_matches = filter_matches matches (range_vals a)
                    in if filtered_matches = []
                       then (Exit 0, makedirs_log (files e) a @ [no_matches_found], w)
                       else
                         (case find_reference_time_raising filtered_matches (start_key a) of
                            Inl x \<Rightarrow> (Uncaught x, makedirs_log (files e) a, w)
                          | Inr None \<Rightarrow>
                              (Exit 1, makedirs_log (files e) a @ [no_start_event a], w)
                          | Inr (Some ref_time) \<Rightarrow>
                              (let (x, log, w') =
                                     process_matches_raising tool a ref_time
                                       (sorted_matches filtered_matches) w
                               in (case x of Some exn \<Rightarrow> Uncaught exn | None \<Rightarrow> Exit 0,
                                   makedirs_log (files e) a @ [reference_line a ref_time] @ log,
                                   w')))))))"

section \<open>Specification-side definitions and example inputs\<close>

text \<open>
  The specification's reading of the range filter: a record is in the range \<open>[lo, hi]\<close>
  when it has a \<open>number\<close> and \<open>lo \<le> number \<le> hi\<close>.
\<close>

definition in_range :: "pyfloat \<Rightarrow> pyfloat \<Rightarrow> match_rec \<Rightarrow> bool" where
  "in_range lo hi m = (case number m of None \<Rightarrow> False | Some n \<Rightarrow> lo \<le> of_int n \<and> of_int n \<le> hi)"

text \<open>
  A match survives, for a reference time, when it has both event keys and its duration is
  positive: the matches for which the loop reaches \<open>run_ffmpeg\<close>.
\<close>

definition survives :: "args \<Rightarrow> pyfloat \<Rightarrow> match_rec \<Rightarrow> bool" where
  "survives a r m =
     (events m (start_key a) \<noteq> None \<and> events m (end_key a) \<noteq> None \<and> 0 < duration a r m)"

text \<open>
  The output paths of the commands a run started: the last argument of each
  \<open>subprocess.run\<close>, in order.
\<close>

fun subprocess_outputs :: "event list \<Rightarrow> string list" where
  "subprocess_outputs [] = []"
| "subprocess_outputs (Subprocess cmd # es) = last cmd # subprocess_outputs es"
| "subprocess_outputs (_ # es) = subprocess_outputs es"

text \<open>
  Match records to run the program on: with the events \<open>start\<close> and \<open>end\<close>, with
  or without a \<open>number\<close> and a \<open>name\<close>, and with one of the two events only.
\<close>

definition example_match :: "int \<Rightarrow> int \<Rightarrow> int \<Rightarrow> match_rec" where
  "example_match n s e = \<lparr>number = Some n, name = None, events = [''start'' \<mapsto> s, ''end'' \<mapsto> e]\<rparr>"

definition unnumbered_match :: "int \<Rightarrow> int \<Rightarrow> match_rec" where
  "unnumbered_match s e = \<lparr>number = None, name = None, events = [''start'' \<mapsto> s, ''end'' \<mapsto> e]\<rparr>"

definition named_match :: "int \<Rightarrow> string \<Rightarrow> int \<Rightarrow> int \<Rightarrow> match_rec" where
  "named_match n s b e = \<lparr>number = Some n, name = Some s, events = [''start'' \<mapsto> b, ''end'' \<mapsto> e]\<rparr>"

definition start_only_match :: "int \<Rightarrow> int \<Rightarrow> match_rec" where
  "start_only_match n b = \<lparr>number = Some n, name = None, events = [''start'' \<mapsto> b]\<rparr>"

definition end_only_match :: "int \<Rightarrow> int \<Rightarrow> match_rec" where
  "end_only_match n e = \<lparr>number = Some n, name = None, events = [''end'' \<mapsto> e]\<rparr>"

text \<open>
  A command line (no range, offset 0, no adjustments, the event keys \<open>start\<close> and
  \<open>end\<close>), a file system that holds both input files, the output directory and the
  given matches, and two tools over a world without state: one that succeeds, one that
  fails with exit status 1.
\<close>

definition example_args :: args where
  "example_args =
     \<lparr>json = ''matches.json'', video = ''video.mkv'', range_vals = None, offset = 0,
      start_key = ''start'', end_key = ''end'', startOffset = 0, endOffset = 0, out = ''out''\<rparr>"

definition example_env :: "match_rec list \<Rightarrow> env" where
  "example_env ms =
     \<lparr>isfile = (\<lambda>p. p = ''matches.json'' \<or> p = ''video.mkv''), isdir = (\<lambda>p. p = ''out''),
      load_json = (\<lambda>p. [''matches'' \<mapsto> ms])\<rparr>"

definition tool_ok :: "unit tool" where
  "tool_ok cmd w = ((0, ''''), w)"

definition tool_fail :: "unit tool" where
  "tool_fail cmd w = ((1, ''Invalid data found''), w)"

text \<open>
  A timestamp converts when its division by 1000 does not raise; a record without the key
  has nothing to convert.
\<close>

definition converts :: "string \<Rightarrow> match_rec \<Rightarrow> bool" where
  "converts key m =
     (case events m key of None \<Rightarrow> True | Some t \<Rightarrow> \<bar>truediv t 1000\<bar> < 2 ^ 1024)"

text \<open>
  The example file system with no failure, and a tool that cannot be started:
  \<open>subprocess.run\<close> raises FileNotFoundError, an OSError, when \<open>ffmpeg\<close> is not
  installed.
\<close>

definition example_raising_env :: "match_rec list \<Rightarrow> raising_env" where
  "example_raising_env ms =
     \<lparr>files = example_env ms, load_json_raises = (\<lambda>p. None), makedirs_raises = (\<lambda>p. None)\<rparr>"

definition tool_missing :: "unit raising_tool" where
  "tool_missing cmd w = (Inl OSError, w)"

section \<open>The rounding at some values\<close>

text \<open>
  Values every Python session shows: \<open>1 / 1000\<close> is the float
  \<open>1152921504606847 / 2 ^ 60\<close>, a tie goes to the even neighbour
  (\<open>float(2 ** 53 + 1) = 2.0 ** 53\<close>), and \<open>0.1 + 0.2\<close> is one unit in the last
  place above \<open>0.3\<close>.
\<close>

lemma fl_examples:
  "fl 1 = 1 \<and> fl (1 / 1000) = 1152921504606847 / 2 ^ 60 \<and>
   fl (2 ^ 53 + 1) = 2 ^ 53 \<and> fl (2 ^ 53 + 3) = 2 ^ 53 + 4 \<and>
   fadd (fl (1 / 10)) (fl (2 / 10)) = fl (3 / 10) + 1 / 2 ^ 54"
  by code_simp

lemma fmt3_examples:
  "fmt3 (fl (5 / 10000)) = ''0.001'' \<and> fmt3 (- 1 / 8192) = ''-0.000'' \<and>
   fmt3 (12345678 / 1000) = ''12345.678'' \<and> str_int (- 120) = ''-120''"
  by code_simp

text \<open>
  \<open>fl x\<close> is a binary64 value next to \<open>x\<close>: by its definition an integer multiple of
  the unit \<open>2 powi ulp_exp x\<close>, with \<open>- 1074 \<le> ulp_exp x\<close>; it is at most half of that
  unit away from \<open>x\<close>; and \<open>x\<close> is less than \<open>2 ^ 53\<close> units in magnitude, and at
  least \<open>2 ^ 52\<close> units in the normal range, so that the multiple has 53 bits.
\<close>

lemma round_half_even_error: "\<bar>of_int (round_half_even z) - z\<bar> \<le> 1 / 2"
proof -
  have "of_int \<lfloor>z\<rfloor> \<le> z" "z < of_int \<lfloor>z\<rfloor> + 1"
    by linarith+
  then show ?thesis
    by (auto simp: round_half_even_def Let_def)
qed

lemma power2_le_of_int: "2 ^ n \<le> (k::int) \<Longrightarrow> (2::rat) ^ n \<le> of_int k"
proof -
  assume "2 ^ n \<le> k"
  then have "(of_int (2 ^ n) :: rat) \<le> of_int k" by (simp only: of_int_le_iff)
  then show ?thesis by simp
qed

lemma of_int_less_power2: "(k::int) < 2 ^ n \<Longrightarrow> (of_int k + 1 :: rat) \<le> 2 ^ n"
proof -
  assume "k < 2 ^ n"
  then have "k + 1 \<le> 2 ^ n" by simp
  then have "(of_int (k + 1) :: rat) \<le> of_int (2 ^ n)" by (simp only: of_int_le_iff)
  then show ?thesis by simp
qed

lemma ilog2_lower:
  assumes "0 < x"
  shows "2 powi ilog2 x \<le> x"
proof (cases "1 \<le> x")
  case True
  define n where "n = \<lfloor>x\<rfloor>"
  from True have n: "0 < n" by (simp add: n_def)
  from bitlen_bounds [OF n] have b: "2 ^ nat (bitlen n - 1) \<le> n" by (rule conjunct1)
  from n have "1 \<le> bitlen n" by (simp add: bitlen_alt_def)
  then have "(2::rat) powi (bitlen n - 1) = 2 ^ nat (bitlen n - 1)"
    by (simp add: power_int_def)
  also from b have "\<dots> \<le> of_int n" by (rule power2_le_of_int)
  also have "\<dots> \<le> x" unfolding n_def by (rule of_int_floor_le)
  finally show ?thesis using True by (simp add: ilog2_def n_def)
next
  case False
  define k where "k = \<lceil>1 / x\<rceil> - 1"
  from False assms have "1 < 1 / x" by simp
  then have "1 < \<lceil>1 / x\<rceil>" by (simp only: less_ceiling_iff of_int_1)
  then have k: "0 < k" by (simp add: k_def)
  have "1 / x \<le> of_int \<lceil>1 / x\<rceil>" by (rule le_of_int_ceiling)
  then have up: "1 / x \<le> of_int k + 1" by (simp add: k_def)
  from bitlen_bounds [OF k] have "k < 2 ^ nat (bitlen k)" by (rule conjunct2)
  then have "(of_int k + 1 :: rat) \<le> 2 ^ nat (bitlen k)" by (rule of_int_less_power2)
  with up have "1 / x \<le> 2 ^ nat (bitlen k)" by (rule order_trans)
  with assms have "1 / 2 ^ nat (bitlen k) \<le> x"
    by (simp add: field_simps)
  moreover have "(2::rat) powi (- bitlen k) = 1 / 2 ^ nat (bitlen k)"
    using bitlen_nonneg [of k] by (simp add: power_int_minus_divide power_int_def power_one_over)
  ultimately show ?thesis using False by (simp add: ilog2_def k_def)
qed

lemma ilog2_upper:
  assumes "0 < x"
  shows "x < 2 powi (ilog2 x + 1)"
proof (cases "1 \<le> x")
  case True
  define n where "n = \<lfloor>x\<rfloor>"
  from True have n: "0 < n" by (simp add: n_def)
  from bitlen_bounds [OF n] have "n < 2 ^ nat (bitlen n)" by (rule conjunct2)
  then have b: "(of_int n + 1 :: rat) \<le> 2 ^ nat (bitlen n)" by (rule of_int_less_power2)
  have "x < of_int n + 1" unfolding n_def by linarith
  also note b
  also have "(2::rat) ^ nat (bitlen n) = 2 powi (bitlen n)"
    using bitlen_nonneg [of n] by (simp add: power_int_def)
  finally show ?thesis using True by (simp add: ilog2_def n_def)
next
  case False
  define k where "k = \<lceil>1 / x\<rceil> - 1"
  from False assms have "1 < 1 / x" by simp
  then have "1 < \<lceil>1 / x\<rceil>" by (simp only: less_ceiling_iff of_int_1)
  then have k: "0 < k" by (simp add: k_def)
  then have j: "1 \<le> bitlen k" by (simp add: bitlen_alt_def)
  have "of_int \<lceil>1 / x\<rceil> - 1 < 1 / x" by (rule ceiling_correct [THEN conjunct1])
  then have low: "of_int k < 1 / x" by (simp add: k_def)
  from bitlen_bounds [OF k] have "2 ^ nat (bitlen k - 1) \<le> k" by (rule conjunct1)
  then have "(2::rat) ^ nat (bitlen k - 1) \<le> of_int k" by (rule power2_le_of_int)
  from this low have "(2::rat) ^ nat (bitlen k - 1) < 1 / x"
    by (rule le_less_trans)
  with assms have "x < 1 / 2 ^ nat (bitlen k - 1)"
    by (simp add: field_simps)
  moreover from j have "(2::rat) powi (- bitlen k + 1) = 1 / 2 ^ nat (bitlen k - 1)"
    using power_int_minus_divide [of "2::rat" "bitlen k - 1"] by (simp add: power_int_def)
  ultimately show ?thesis using False by (simp add: ilog2_def k_def)
qed

lemma fl_error:
  "\<bar>fl x - x\<bar> \<le> 2 powi ulp_exp x / 2"
proof (cases "x = 0")
  case True
  then show ?thesis by (simp add: fl_def)
next
  case False
  define u :: rat where "u = 2 powi ulp_exp x"
  have u: "0 < u" by (simp add: u_def)
  have "fl x - x = (of_int (round_half_even (x / u)) - x / u) * u"
    using False u by (simp add: fl_def u_def field_simps)
  then have "\<bar>fl x - x\<bar> = \<bar>of_int (round_half_even (x / u)) - x / u\<bar> * u"
    using u by (simp add: abs_mult)
  also have "\<dots> \<le> 1 / 2 * u"
    using round_half_even_error [of "x / u"] u by (intro mult_right_mono) simp_all
  finally show ?thesis by (simp add: u_def)
qed

lemma fl_significand:
  assumes "x \<noteq> 0"
  shows "\<bar>x / 2 powi ulp_exp x\<bar> < 2 ^ 53"
proof -
  from assms have pos: "0 < \<bar>x\<bar>" by simp
  have "ilog2 \<bar>x\<bar> + 1 \<le> ulp_exp x + 53" by (simp add: ulp_exp_def)
  then have "(2::rat) powi (ilog2 \<bar>x\<bar> + 1) \<le> 2 powi (ulp_exp x + 53)"
    by (intro power_int_increasing) simp_all
  with ilog2_upper [OF pos] have "\<bar>x\<bar> < 2 powi (ulp_exp x + 53)" by simp
  also have "\<dots> = 2 powi ulp_exp x * 2 ^ 53"
    by (simp add: power_int_add)
  finally have "\<bar>x\<bar> / 2 powi ulp_exp x < 2 ^ 53"
    by (simp add: field_simps)
  then show ?thesis by (simp add: abs_divide)
qed

lemma fl_normal_significand:
  assumes "x \<noteq> 0" and "- 1022 \<le> ilog2 \<bar>x\<bar>"
  shows "2 ^ 52 \<le> \<bar>x / 2 powi ulp_exp x\<bar>"
proof -
  from assms(1) have pos: "0 < \<bar>x\<bar>" by simp
  from assms(2) have "ilog2 \<bar>x\<bar> = ulp_exp x + 52" by (simp add: ulp_exp_def)
  then have "(2::rat) powi ilog2 \<bar>x\<bar> = 2 powi ulp_exp x * 2 ^ 52"
    by (simp add: power_int_add)
  with ilog2_lower [OF pos] have "2 powi ulp_exp x * 2 ^ 52 \<le> \<bar>x\<bar>" by simp
  then have "2 ^ 52 \<le> \<bar>x\<bar> / 2 powi ulp_exp x"
    by (simp add: field_simps)
  then show ?thesis by (simp add: abs_divide)
qed

section \<open>The example inputs evaluated\<close>

text \<open>
  The fields of the example inputs, and the values of the float operations and of the
  formats that the runs on them need.
\<close>

lemma example_args_simps:
  "json example_args = ''matches.json''" "video example_args = ''video.mkv''"
  "range_vals example_args = None" "offset example_args = 0"
  "start_key example_args = ''start''" "end_key example_args = ''end''"
  "startOffset example_args = 0" "endOffset example_args = 0" "out example_args = ''out''"
  by (simp_all add: example_args_def)

lemma example_env_simps:
  "isfile (example_env ms) ''matches.json''" "isfile (example_env ms) ''video.mkv''"
  "isdir (example_env ms) ''out''" "load_json (example_env ms) p ''matches'' = Some ms"
  by (simp_all add: example_env_def)

lemma example_match_simps:
  "number (example_match n s e) = Some n" "name (example_match n s e) = None"
  "events (example_match n s e) ''start'' = Some s" "events (example_match n s e) ''end'' = Some e"
  by (simp_all add: example_match_def)

lemma start_only_match_simps:
  "number (start_only_match n s) = Some n" "name (start_only_match n s) = None"
  "events (start_only_match n s) ''start'' = Some s" "events (start_only_match n s) ''end'' = None"
  by (simp_all add: start_only_match_def)

lemma end_only_match_simps:
  "number (end_only_match n e) = Some n" "name (end_only_match n e) = None"
  "events (end_only_match n e) ''start'' = None" "events (end_only_match n e) ''end'' = Some e"
  by (simp_all add: end_only_match_def)

lemma named_match_simps:
  "number (named_match n nm s e) = Some n" "name (named_match n nm s e) = Some nm"
  "events (named_match n nm s e) ''start'' = Some s" "events (named_match n nm s e) ''end'' = Some e"
  by (simp_all add: named_match_def)

lemma fmt3_values:
  "fmt3 0 = ''0.000''" "fmt3 1 = ''1.000''" "fmt3 3 = ''3.000''" "fmt3 4 = ''4.000''"
  "fmt3 5 = ''5.000''" "fmt3 6 = ''6.000''" "fmt3 8 = ''8.000''" "fmt3 9 = ''9.000''"
  "fmt3 11 = ''11.000''" "fmt3 12 = ''12.000''"
  "fmt3 1152921504606846976 = ''1152921504606846976.000''"
  by code_simp+

lemma str_int_values: "str_int 1 = ''1''" "str_int 2 = ''2''" "str_int 7 = ''7''"
  by code_simp+

lemma truediv_values:
  "truediv 1000 1000 = 1" "truediv 5000 1000 = 5" "truediv 7000 1000 = 7"
  "truediv 9000 1000 = 9" "truediv 12000 1000 = 12"
  by code_simp+

lemma float_values:
  "fsub 1 1 = 0" "fsub 5 1 = 4" "fsub 7 1 = 6" "fsub 9 1 = 8" "fsub 12 1 = 11"
  "fsub 1 9 = - 8" "fsub 5 9 = - 4" "fsub 9 9 = 0" "fsub 12 9 = 3"
  "fadd 0 0 = 0" "fadd 4 0 = 4" "fadd 6 0 = 6" "fadd 8 0 = 8" "fadd 11 0 = 11"
  "fadd (- 8) 0 = - 8" "fadd (- 4) 0 = - 4" "fadd 3 0 = 3"
  "fsub 4 0 = 4" "fsub 6 8 = - 2" "fsub 11 8 = 3" "fsub (- 4) (- 8) = 4" "fsub 3 0 = 3"
  "fadd 0 1152921504606846976 = 1152921504606846976"
  "fadd 4 1152921504606846976 = 1152921504606846976"
  "fadd 1152921504606846976 0 = 1152921504606846976"
  "fsub 1152921504606846976 1152921504606846976 = 0"
  "fadd 0 30 = 30" "fadd 4 30 = 34" "fadd 30 0 = 30" "fadd 34 0 = 34" "fsub 34 30 = 4"
  by code_simp+

lemmas example_simps =
  example_args_simps example_env_simps example_match_simps start_only_match_simps
  end_only_match_simps named_match_simps fmt3_values str_int_values truediv_values float_values
  video_start_time_def video_end_time_def duration_def match_name_def output_file_def
  path_join_def

section \<open>Sorting and searching\<close>

lemma find_Some_in_set: "List.find P xs = Some y \<Longrightarrow> y \<in> set xs"
  by (induction xs) (auto split: if_splits)

lemma find_insort_key:
  "sorted (map f zs) \<Longrightarrow>
   List.find P (insort_key f x zs) =
     (if P x
      then (case List.find P zs of
              None \<Rightarrow> Some x
            | Some z \<Rightarrow> if f x \<le> f z then Some x else Some z)
      else List.find P zs)"
proof (induction zs)
  case Nil
  then show ?case by simp
next
  case (Cons z zs)
  show ?case
  proof (cases "f x \<le> f z")
    case True
    have le: "f x \<le> f y" if "List.find P (z # zs) = Some y" for y
    proof -
      from that have "y \<in> set (z # zs)"
        by (rule find_Some_in_set)
      with Cons.prems True show ?thesis by auto
    qed
    show ?thesis
    proof (cases "List.find P (z # zs)")
      case None
      with True show ?thesis by simp
    next
      case (Some y)
      with le have "f x \<le> f y" by simp
      with True Some show ?thesis by simp
    qed
  next
    case False
    from Cons.prems have "sorted (map f zs)" by simp
    from Cons.IH [OF this] False show ?thesis
      by (cases "List.find P zs") simp_all
  qed
qed

lemma find_sort_key_split:
  "\<exists>x\<in>set xs. P x \<Longrightarrow>
   \<exists>pre m post. xs = pre @ m # post \<and> P m \<and>
     (\<forall>x\<in>set pre. P x \<longrightarrow> f m < f x) \<and>
     (\<forall>x\<in>set post. P x \<longrightarrow> f m \<le> f x) \<and>
     List.find P (sort_key f xs) = Some m"
proof (induction xs)
  case Nil
  then show ?case by simp
next
  case (Cons x xs)
  have step: "List.find P (sort_key f (x # xs)) =
      (if P x
       then (case List.find P (sort_key f xs) of
               None \<Rightarrow> Some x
             | Some z \<Rightarrow> if f x \<le> f z then Some x else Some z)
       else List.find P (sort_key f xs))"
    by (simp add: find_insort_key)
  show ?case
  proof (cases "\<exists>y\<in>set xs. P y")
    case False
    with Cons.prems have px: "P x" by auto
    from False have "List.find P (sort_key f xs) = None"
      by (simp add: find_None_iff)
    with px step have "List.find P (sort_key f (x # xs)) = Some x" by simp
    with px False have "x # xs = [] @ x # xs \<and> P x \<and>
        (\<forall>y\<in>set []. P y \<longrightarrow> f x < f y) \<and>
        (\<forall>y\<in>set xs. P y \<longrightarrow> f x \<le> f y) \<and>
        List.find P (sort_key f (x # xs)) = Some x"
      by simp
    then show ?thesis by blast
  next
    case True
    from Cons.IH [OF True] obtain pre m post where
      xs: "xs = pre @ m # post" and pm: "P m" and
      pre: "\<forall>y\<in>set pre. P y \<longrightarrow> f m < f y" and
      post: "\<forall>y\<in>set post. P y \<longrightarrow> f m \<le> f y" and
      fnd: "List.find P (sort_key f xs) = Some m"
      by blast
    show ?thesis
    proof (cases "P x \<and> f x \<le> f m")
      case True
      with step fnd have "List.find P (sort_key f (x # xs)) = Some x" by simp
      moreover have "P y \<longrightarrow> f x \<le> f y" if "y \<in> set xs" for y
      proof -
        from that xs have "y \<in> set pre \<or> y = m \<or> y \<in> set post" by auto
        with pre post True show ?thesis by force
      qed
      ultimately have "x # xs = [] @ x # xs \<and> P x \<and>
          (\<forall>y\<in>set []. P y \<longrightarrow> f x < f y) \<and>
          (\<forall>y\<in>set xs. P y \<longrightarrow> f x \<le> f y) \<and>
          List.find P (sort_key f (x # xs)) = Some x"
        using True by simp
      then show ?thesis by blast
    next
      case False
      with step fnd have "List.find P (sort_key f (x # xs)) = Some m" by auto
      moreover have "\<forall>y\<in>set (x # pre). P y \<longrightarrow> f m < f y"
        using False pre by auto
      ultimately have "x # xs = (x # pre) @ m # post \<and> P m \<and>
          (\<forall>y\<in>set (x # pre). P y \<longrightarrow> f m < f y) \<and>
          (\<forall>y\<in>set post. P y \<longrightarrow> f m \<le> f y) \<and>
          List.find P (sort_key f (x # xs)) = Some m"
        using xs pm post by simp
      then show ?thesis by blast
    qed
  qed
qed

lemma first_start_find:
  "first_start k ms =
     map_option (\<lambda>m. truediv (the (events m k)) 1000) (List.find (\<lambda>m. events m k \<noteq> None) ms)"
  by (induction ms) simp_all

lemma find_reference_time_split:
  assumes "\<exists>m\<in>set ms. events m k \<noteq> None"
  shows "\<exists>pre m post. ms = pre @ m # post \<and> events m k \<noteq> None \<and>
     (\<forall>x\<in>set pre. events x k \<noteq> None \<longrightarrow> number_key m < number_key x) \<and>
     (\<forall>x\<in>set post. events x k \<noteq> None \<longrightarrow> number_key m \<le> number_key x) \<and>
     find_reference_time ms k = Some (truediv (the (events m k)) 1000)"
proof -
  from find_sort_key_split [of ms "\<lambda>m. events m k \<noteq> None" number_key, OF assms]
  obtain pre m post where *:
    "ms = pre @ m # post" "events m k \<noteq> None"
    "\<forall>x\<in>set pre. events x k \<noteq> None \<longrightarrow> number_key m < number_key x"
    "\<forall>x\<in>set post. events x k \<noteq> None \<longrightarrow> number_key m \<le> number_key x"
    "List.find (\<lambda>m. events m k \<noteq> None) (sort_key number_key ms) = Some m"
    by blast
  from *(5) have "find_reference_time ms k = Some (truediv (the (events m k)) 1000)"
    by (simp add: find_reference_time_def sorted_matches_def first_start_find)
  with *(1-4) show ?thesis by blast
qed

lemma find_reference_time_None:
  "find_reference_time ms k = None \<longleftrightarrow> (\<forall>m\<in>set ms. events m k = None)"
  by (auto simp: find_reference_time_def sorted_matches_def first_start_find find_None_iff)

lemma sorted_matches_sorted: "sorted (map number_key (sorted_matches ms))"
  by (simp add: sorted_matches_def)

section \<open>The loop of main\<close>

lemma process_matches_append:
  "process_matches tool a r (xs @ ys) w =
     (let (l1, w1) = process_matches tool a r xs w;
          (l2, w2) = process_matches tool a r ys w1
      in (l1 @ l2, w2))"
  by (induction xs arbitrary: w) (simp_all split: prod.splits)

lemma process_matches_mid:
  assumes "process_matches tool a r pre w = (l1, w1)"
    and "process_match tool a r m w1 = (lm, wm)"
    and "process_matches tool a r post wm = (l2, w2)"
  shows "process_matches tool a r (pre @ m # post) w = (l1 @ lm @ l2, w2)"
  using assms by (simp add: process_matches_append)

lemma main_reaches_loop:
  assumes "isfile e (json a)" "isfile e (video a)"
    and "load_json e (json a) ''matches'' = Some ms"
    and "find_reference_time (filter_matches ms (range_vals a)) (start_key a) = Some r"
    and "process_matches tool a r (sorted_matches (filter_matches ms (range_vals a))) w = (l, w')"
  shows "main tool e a w = (0, makedirs_log e a @ [reference_line a r] @ l, w')"
proof -
  from assms(4) have "filter_matches ms (range_vals a) \<noteq> []"
    by (auto simp: find_reference_time_def sorted_matches_def)
  with assms show ?thesis
    by (simp add: main_def Let_def)
qed

lemma main_loop_at:
  assumes "isfile e (json a)" "isfile e (video a)"
    and "load_json e (json a) ''matches'' = Some ms"
    and "find_reference_time (filter_matches ms (range_vals a)) (start_key a) = Some r"
    and "sorted_matches (filter_matches ms (range_vals a)) = pre @ m # post"
    and "process_matches tool a r pre w = (l1, w1)"
    and "process_match tool a r m w1 = (lm, wm)"
    and "process_matches tool a r post wm = (l2, w2)"
  shows "main tool e a w = (0, makedirs_log e a @ [reference_line a r] @ l1 @ lm @ l2, w2)"
proof -
  from assms(5-8)
  have "process_matches tool a r (sorted_matches (filter_matches ms (range_vals a))) w
      = (l1 @ lm @ l2, w2)"
    by (simp add: process_matches_mid)
  from main_reaches_loop [OF assms(1-4) this] show ?thesis .
qed

lemma main_exit_code:
  "fst (main tool e a w) =
     (if \<not> isfile e (json a) \<or> \<not> isfile e (video a) then 1
      else case load_json e (json a) ''matches'' of
             None \<Rightarrow> 1
           | Some ms \<Rightarrow>
               if filter_matches ms (range_vals a) = [] then 0
               else if \<forall>m\<in>set (filter_matches ms (range_vals a)). events m (start_key a) = None
               then 1 else 0)"
  by (auto simp: main_def Let_def find_reference_time_None [symmetric]
      split: option.splits prod.splits)

lemma subprocess_outputs_append:
  "subprocess_outputs (xs @ ys) = subprocess_outputs xs @ subprocess_outputs ys"
  by (induction xs rule: subprocess_outputs.induct) simp_all

lemma subprocess_outputs_run_ffmpeg:
  "subprocess_outputs (fst (run_ffmpeg tool v s d f w)) = [f]"
  by (simp add: run_ffmpeg_def ffmpeg_cmd_def error_processing_def Let_def split: prod.splits)

lemma subprocess_outputs_process_match:
  "subprocess_outputs (fst (process_match tool a r m w)) =
     (if survives a r m then [output_file a m] else [])"
proof (cases "survives a r m")
  case True
  then have "fst (process_match tool a r m w) =
      processing_lines a r m @
      fst (run_ffmpeg tool (video a) (video_start_time a r m) (duration a r m) (output_file a m) w)"
    by (auto simp: survives_def process_match_def split: prod.splits)
  with True show ?thesis
    by (simp add: subprocess_outputs_append subprocess_outputs_run_ffmpeg processing_lines_def)
next
  case False
  then show ?thesis
    by (auto simp: survives_def process_match_def missing_event_line_def invalid_duration_line_def)
qed

lemma subprocess_outputs_process_matches:
  "subprocess_outputs (fst (process_matches tool a r ms w)) =
     map (output_file a) (filter (survives a r) ms)"
proof (induction ms arbitrary: w)
  case Nil
  then show ?case by simp
next
  case (Cons m ms)
  obtain l w' where m: "process_match tool a r m w = (l, w')"
    by (cases "process_match tool a r m w")
  obtain ls w'' where ms: "process_matches tool a r ms w' = (ls, w'')"
    by (cases "process_matches tool a r ms w'")
  from subprocess_outputs_process_match [of tool a r m w] m
  have "subprocess_outputs l = (if survives a r m then [output_file a m] else [])" by simp
  moreover from Cons.IH [of w'] ms
  have "subprocess_outputs ls = map (output_file a) (filter (survives a r) ms)" by simp
  ultimately show ?case
    using m ms by (simp add: subprocess_outputs_append)
qed

section \<open>The runs that raise\<close>

text \<open>
  Where nothing raises, the definitions with exceptions give what the definitions
  without them give; with a tool that returns, only a timestamp can end the loop.
\<close>

lemma truediv_raising_converts:
  "events m k = Some t \<Longrightarrow> converts k m \<Longrightarrow> truediv_raising t 1000 = Inr (truediv t 1000)"
  by (simp add: converts_def truediv_raising_def)

lemma first_start_raising_first_start:
  "first_start_raising k ms =
     (case first_start k ms of
        None \<Rightarrow> Inr None
      | Some t \<Rightarrow> if 2 ^ 1024 \<le> \<bar>t\<bar> then Inl OverflowError else Inr (Some t))"
  by (induction ms) (auto simp: truediv_raising_def)

lemma find_reference_time_raising_None:
  "find_reference_time_raising ms k = Inr None \<longleftrightarrow> (\<forall>m\<in>set ms. events m k = None)"
proof -
  have "find_reference_time_raising ms k = Inr None \<longleftrightarrow> find_reference_time ms k = None"
    by (simp add: find_reference_time_raising_def find_reference_time_def
        first_start_raising_first_start split: option.splits)
  then show ?thesis by (simp add: find_reference_time_None)
qed

lemma first_start_converts:
  "first_start k ms = Some t \<Longrightarrow> \<forall>m\<in>set ms. converts k m \<Longrightarrow> \<bar>t\<bar> < 2 ^ 1024"
  by (induction ms) (auto simp: converts_def split: if_splits)

lemma find_reference_time_raising_converts:
  assumes "\<forall>m\<in>set ms. converts k m"
  shows "find_reference_time_raising ms k = Inr (find_reference_time ms k)"
proof (cases "find_reference_time ms k")
  case None
  then show ?thesis
    by (simp add: find_reference_time_raising_def find_reference_time_def
        first_start_raising_first_start)
next
  case (Some t)
  then have "first_start k (sorted_matches ms) = Some t"
    by (simp add: find_reference_time_def)
  moreover from assms have "\<forall>m\<in>set (sorted_matches ms). converts k m"
    by (simp add: sorted_matches_def)
  ultimately have "\<bar>t\<bar> < 2 ^ 1024" by (rule first_start_converts)
  with Some show ?thesis
    by (simp add: find_reference_time_raising_def find_reference_time_def
        first_start_raising_first_start)
qed

lemma run_ffmpeg_raising_returning:
  "run_ffmpeg_raising (returning tool) v s d f w =
     (None, fst (run_ffmpeg tool v s d f w), snd (run_ffmpeg tool v s d f w))"
  by (simp add: run_ffmpeg_raising_def run_ffmpeg_def returning_def Let_def split: prod.splits)

lemma process_match_raising_returning:
  assumes "converts (start_key a) m" "converts (end_key a) m"
  shows "process_match_raising (returning tool) a r m w =
     (None, fst (process_match tool a r m w), snd (process_match tool a r m w))"
  using assms
  by (auto simp: process_match_raising_def process_match_def run_ffmpeg_raising_returning
      truediv_raising_converts split: prod.splits)

lemma process_matches_raising_returning:
  assumes "\<forall>m\<in>set ms. converts (start_key a) m \<and> converts (end_key a) m"
  shows "process_matches_raising (returning tool) a r ms w =
     (None, fst (process_matches tool a r ms w), snd (process_matches tool a r ms w))"
  using assms
  by (induction ms arbitrary: w)
    (simp_all add: process_match_raising_returning split: prod.splits)

lemma process_match_raising_tool_free:
  "fst (process_match_raising (returning tool) a r m w) =
     (if events m (start_key a) \<noteq> None \<and> events m (end_key a) \<noteq> None \<and>
         \<not> (converts (start_key a) m \<and> converts (end_key a) m)
      then Some OverflowError else None)"
  by (auto simp: process_match_raising_def run_ffmpeg_raising_returning truediv_raising_def
      converts_def split: prod.splits sum.splits)

lemma process_matches_raising_tool_free:
  "fst (process_matches_raising (returning tool) a r ms w) =
     (if \<exists>m\<in>set ms. events m (start_key a) \<noteq> None \<and> events m (end_key a) \<noteq> None \<and>
           \<not> (converts (start_key a) m \<and> converts (end_key a) m)
      then Some OverflowError else None)"
proof (induction ms arbitrary: w)
  case Nil
  then show ?case by simp
next
  case (Cons m ms)
  obtain x l w' where m: "process_match_raising (returning tool) a r m w = (x, l, w')"
    by (cases "process_match_raising (returning tool) a r m w")
  obtain y ls w'' where ms: "process_matches_raising (returning tool) a r ms w' = (y, ls, w'')"
    by (cases "process_matches_raising (returning tool) a r ms w'")
  from process_match_raising_tool_free [of tool a r m w] m
  have x: "x = (if events m (start_key a) \<noteq> None \<and> events m (end_key a) \<noteq> None \<and>
         \<not> (converts (start_key a) m \<and> converts (end_key a) m)
      then Some OverflowError else None)" by simp
  from Cons.IH [of w'] ms
  have y: "y = (if \<exists>m\<in>set ms. events m (start_key a) \<noteq> None \<and> events m (end_key a) \<noteq> None \<and>
           \<not> (converts (start_key a) m \<and> converts (end_key a) m)
      then Some OverflowError else None)" by simp
  show ?case
    using m ms x y by (auto split: option.splits)
qed

lemma main_raising_outcome:
  "fst (main_raising tool e a w) =
     (if \<not> isfile (files e) (json a) \<or> \<not> isfile (files e) (video a) then Exit 1
      else if \<not> isdir (files e) (out a) \<and> makedirs_raises e (out a) \<noteq> None
      then Uncaught (the (makedirs_raises e (out a)))
      else case load_json_raises e (json a) of
             Some x \<Rightarrow> Uncaught x
           | None \<Rightarrow>
               (case load_json (files e) (json a) ''matches'' of
                  None \<Rightarrow> Exit 1
                | Some ms \<Rightarrow>
                    if filter_matches ms (range_vals a) = [] then Exit 0
                    else
                      (case find_reference_time_raising (filter_matches ms (range_vals a))
                              (start_key a) of
                         Inl x \<Rightarrow> Uncaught x
                       | Inr None \<Rightarrow> Exit 1
                       | Inr (Some r) \<Rightarrow>
                           (case fst (process_matches_raising tool a r
                                   (sorted_matches (filter_matches ms (range_vals a))) w) of
                              Some x \<Rightarrow> Uncaught x
                            | None \<Rightarrow> Exit 0))))"
  by (simp add: main_raising_def Let_def split: option.splits sum.splits prod.splits)

lemma main_raising_returns:
  assumes "isdir (files e) (out a) \<or> makedirs_raises e (out a) = None"
    and "load_json_raises e (json a) = None"
    and "\<forall>ms. load_json (files e) (json a) ''matches'' = Some ms \<longrightarrow>
           (\<forall>m\<in>set ms. converts (start_key a) m \<and> converts (end_key a) m)"
  shows "main_raising (returning tool) e a w =
           (Exit (fst (main tool (files e) a w)), snd (main tool (files e) a w))"
proof (cases "load_json (files e) (json a) ''matches''")
  case None
  with assms(1,2) show ?thesis
    by (auto simp: main_raising_def main_def)
next
  case (Some ms)
  let ?fm = "filter_matches ms (range_vals a)"
  have sub: "set ?fm \<subseteq> set ms"
    by (auto simp: filter_matches_def split: option.splits)
  with assms(3) Some have conv: "\<forall>m\<in>set ?fm. converts (start_key a) m \<and> converts (end_key a) m"
    by blast
  then have ref: "find_reference_time_raising ?fm (start_key a) =
      Inr (find_reference_time ?fm (start_key a))"
    by (simp add: find_reference_time_raising_converts)
  from conv have "\<forall>m\<in>set (sorted_matches ?fm).
      converts (start_key a) m \<and> converts (end_key a) m"
    by (simp add: sorted_matches_def)
  note loop = process_matches_raising_returning [OF this]
  from assms(1,2) Some show ?thesis
    by (auto simp: main_raising_def main_def Let_def ref loop split: option.splits prod.splits)
qed

lemma example_raising_env_simps:
  "files (example_raising_env ms) = example_env ms"
  "load_json_raises (example_raising_env ms) p = None"
  "makedirs_raises (example_raising_env ms) p = None"
  by (simp_all add: example_raising_env_def)

lemma truediv_raising_values:
  "truediv_raising 1000 1000 = Inr 1" "truediv_raising 5000 1000 = Inr 5"
  by (simp_all add: truediv_raising_def truediv_values)

lemma converts_example_match:
  "converts ''start'' (example_match 1 1000 5000)" "converts ''end'' (example_match 1 1000 5000)"
  by (simp_all add: converts_def example_match_simps truediv_values)

section \<open>The claims\<close>

subsection \<open>C1: the reference time\<close>

text \<open>
  C1. When some record of the filtered list has the start-event key, the reference time is
  that key's timestamp divided by 1000 (Python's \<open>/\<close>) of a record \<open>m\<close> of the filtered
  list that has the key and the lowest number among the records that have it; among
  several of the lowest number it is the first of the list. The number is the sort key
  \<open>m.get("number", 0)\<close>: the \<open>number\<close> field of a record that has one, and every
  record of the filtered list has one when a range was given.
\<close>

theorem reference_time_lowest_number:
  assumes "fm = filter_matches ms rv" and "\<exists>m\<in>set fm. events m k \<noteq> None"
  shows "(\<exists>pre m post. fm = pre @ m # post \<and> events m k \<noteq> None \<and>
       (\<forall>x\<in>set pre. events x k \<noteq> None \<longrightarrow> number_key m < number_key x) \<and>
       (\<forall>x\<in>set post. events x k \<noteq> None \<longrightarrow> number_key m \<le> number_key x) \<and>
       find_reference_time fm k = Some (truediv (the (events m k)) 1000)) \<and>
     (\<forall>x n. number x = Some n \<longrightarrow> number_key x = n) \<and>
     (rv \<noteq> None \<longrightarrow> (\<forall>x\<in>set fm. number x \<noteq> None))"
proof -
  from find_reference_time_split [OF assms(2)] obtain pre m post where *:
    "fm = pre @ m # post" "events m k \<noteq> None"
    "\<forall>x\<in>set pre. events x k \<noteq> None \<longrightarrow> number_key m < number_key x"
    "\<forall>x\<in>set post. events x k \<noteq> None \<longrightarrow> number_key m \<le> number_key x"
    "find_reference_time fm k = Some (truediv (the (events m k)) 1000)"
    by blast
  have key: "\<forall>x n. number x = Some n \<longrightarrow> number_key x = n"
    by (simp add: number_key_def)
  from assms(1) have "rv \<noteq> None \<longrightarrow> (\<forall>x\<in>set fm. number x \<noteq> None)"
    by (auto simp: filter_matches_def)
  with * key show ?thesis by blast
qed

theorem reference_time_lowest_number_witness:
  "(\<exists>m\<in>set (filter_matches [example_match 3 3000 3500, example_match 1 1000 1500,
        example_match 2 2000 2500] (Some (2, 3))). events m ''start'' \<noteq> None) \<and>
   find_reference_time (filter_matches [example_match 3 3000 3500, example_match 1 1000 1500,
        example_match 2 2000 2500] (Some (2, 3))) ''start'' = Some (truediv 2000 1000)"
proof -
  let ?fm = "filter_matches [example_match 3 3000 3500, example_match 1 1000 1500,
        example_match 2 2000 2500] (Some (2, 3))"
  have fm: "?fm = [example_match 3 3000 3500, example_match 2 2000 2500]"
    by (simp add: filter_matches_def example_match_def)
  have h: "\<exists>m\<in>set ?fm. events m ''start'' \<noteq> None"
    unfolding fm by (simp add: example_match_def)
  from reference_time_lowest_number [OF refl h, THEN conjunct1] obtain pre m post where *:
    "?fm = pre @ m # post"
    "\<forall>x\<in>set pre. events x ''start'' \<noteq> None \<longrightarrow> number_key m < number_key x"
    "\<forall>x\<in>set post. events x ''start'' \<noteq> None \<longrightarrow> number_key m \<le> number_key x"
    "find_reference_time ?fm ''start'' = Some (truediv (the (events m ''start'')) 1000)"
    by blast
  from *(1) have "(pre = [] \<and> m = example_match 3 3000 3500 \<and> post = [example_match 2 2000 2500]) \<or>
      (pre = [example_match 3 3000 3500] \<and> m = example_match 2 2000 2500 \<and> post = [])"
    unfolding fm by (auto simp: Cons_eq_append_conv)
  with *(3) have "m = example_match 2 2000 2500"
    by (auto simp: example_match_def number_key_def)
  with *(4) h show ?thesis by (simp add: example_match_def)
qed

subsection \<open>C2: the video positions\<close>

text \<open>
  C2. For a match record with both event keys, with Python's float operations in the order
  written: \<open>video_start = (start_ms / 1000 - reference) + offset + startOffset\<close>,
  \<open>video_end = (end_ms / 1000 - reference) + offset + endOffset\<close> and
  \<open>duration = video_end - video_start\<close>; when the duration is positive the command
  started for the match seeks to \<open>video_start\<close> and is limited to \<open>duration\<close>. For
  the one match \<open>{number: 1, start: 1000, end: 5000}\<close> with offset 0 and no adjustments
  the reference time is 1.0, \<open>video_start\<close> is 0.0 and the duration is 4.0, and the run
  prints and starts what the last conjunct lists.
\<close>

theorem video_positions:
  assumes "events m (start_key a) = Some s" and "events m (end_key a) = Some e"
  shows "video_start_time a r m =
       fadd (fadd (fsub (truediv s 1000) r) (offset a)) (startOffset a) \<and>
     video_end_time a r m =
       fadd (fadd (fsub (truediv e 1000) r) (offset a)) (endOffset a) \<and>
     duration a r m = fsub (video_end_time a r m) (video_start_time a r m) \<and>
     (0 < duration a r m \<longrightarrow>
        Subprocess [''ffmpeg'', ''-y'', ''-i'', video a, ''-ss'', fmt3 (video_start_time a r m),
                    ''-t'', fmt3 (duration a r m), ''-c'', ''copy'', output_file a m]
          \<in> set (fst (process_match tool a r m w))) \<and>
     find_reference_time [example_match 1 1000 5000] ''start'' = Some 1 \<and>
     video_start_time example_args 1 (example_match 1 1000 5000) = 0 \<and>
     duration example_args 1 (example_match 1 1000 5000) = 4 \<and>
     main tool_ok (example_env [example_match 1 1000 5000]) example_args () =
       (0, [Stdout (''Reference event time (from first match with '' @ [CHR 0x27] @ ''start'' @
                    [CHR 0x27] @ ''): 1.000 seconds''),
            Stdout ''Processing match Match_1:'',
            Stdout ''  Start event time (wall clock): 1.000s, video start: 0.000s'',
            Stdout ''  End event time (wall clock):   5.000s, video end:   4.000s'',
            Stdout ''  Duration: 4.000s'',
            Stdout ''Running: ffmpeg -y -i video.mkv -ss 0.000 -t 4.000 -c copy out/full-match-Match_1.mkv'',
            Subprocess [''ffmpeg'', ''-y'', ''-i'', ''video.mkv'', ''-ss'', ''0.000'', ''-t'',
                        ''4.000'', ''-c'', ''copy'', ''out/full-match-Match_1.mkv'']],
        ())"
proof -
  from assms have vs: "video_start_time a r m =
       fadd (fadd (fsub (truediv s 1000) r) (offset a)) (startOffset a)"
    by (simp add: video_start_time_def)
  from assms have ve: "video_end_time a r m =
       fadd (fadd (fsub (truediv e 1000) r) (offset a)) (endOffset a)"
    by (simp add: video_end_time_def)
  have d: "duration a r m = fsub (video_end_time a r m) (video_start_time a r m)"
    by (simp add: duration_def)
  have run: "Subprocess [''ffmpeg'', ''-y'', ''-i'', video a, ''-ss'', fmt3 (video_start_time a r m),
                    ''-t'', fmt3 (duration a r m), ''-c'', ''copy'', output_file a m]
          \<in> set (fst (process_match tool a r m w))" if "0 < duration a r m"
    using that assms
    by (simp add: process_match_def run_ffmpeg_def ffmpeg_cmd_def Let_def split: prod.splits)
  have ref: "find_reference_time [example_match 1 1000 5000] ''start'' = Some 1"
    by (simp add: find_reference_time_def sorted_matches_def example_simps)
  have vs1: "video_start_time example_args 1 (example_match 1 1000 5000) = 0"
    by (simp add: example_simps)
  have d1: "duration example_args 1 (example_match 1 1000 5000) = 4"
    by (simp add: example_simps)
  have scenario: "main tool_ok (example_env [example_match 1 1000 5000]) example_args () =
       (0, [Stdout (''Reference event time (from first match with '' @ [CHR 0x27] @ ''start'' @
                    [CHR 0x27] @ ''): 1.000 seconds''),
            Stdout ''Processing match Match_1:'',
            Stdout ''  Start event time (wall clock): 1.000s, video start: 0.000s'',
            Stdout ''  End event time (wall clock):   5.000s, video end:   4.000s'',
            Stdout ''  Duration: 4.000s'',
            Stdout ''Running: ffmpeg -y -i video.mkv -ss 0.000 -t 4.000 -c copy out/full-match-Match_1.mkv'',
            Subprocess [''ffmpeg'', ''-y'', ''-i'', ''video.mkv'', ''-ss'', ''0.000'', ''-t'',
                        ''4.000'', ''-c'', ''copy'', ''out/full-match-Match_1.mkv'']],
        ())"
    by (simp add: main_def find_reference_time_def sorted_matches_def filter_matches_def
        makedirs_log_def reference_line_def process_match_def run_ffmpeg_def ffmpeg_cmd_def
        processing_lines_def tool_ok_def example_simps)
  from vs ve d run ref vs1 d1 scenario show ?thesis by blast
qed

theorem video_positions_witness:
  "events (example_match 1 1000 5000) (start_key example_args) = Some 1000 \<and>
   events (example_match 1 1000 5000) (end_key example_args) = Some 5000 \<and>
   video_start_time example_args 1 (example_match 1 1000 5000) =
     fadd (fadd (fsub (truediv 1000 1000) 1) 0) 0 \<and>
   video_end_time example_args 1 (example_match 1 1000 5000) =
     fadd (fadd (fsub (truediv 5000 1000) 1) 0) 0 \<and>
   Subprocess [''ffmpeg'', ''-y'', ''-i'', ''video.mkv'', ''-ss'', ''0.000'', ''-t'', ''4.000'',
               ''-c'', ''copy'', ''out/full-match-Match_1.mkv'']
     \<in> set (fst (process_match tool_ok example_args 1 (example_match 1 1000 5000) ()))"
proof -
  let ?m = "example_match 1 1000 5000"
  have s: "events ?m (start_key example_args) = Some 1000"
    by (simp add: example_simps)
  have e: "events ?m (end_key example_args) = Some 5000"
    by (simp add: example_simps)
  note inst = video_positions [OF s e, of 1 tool_ok "()"]
  note vs_eq = inst [THEN conjunct1]
  note ve_eq = inst [THEN conjunct2, THEN conjunct1]
  note run = inst [THEN conjunct2, THEN conjunct2, THEN conjunct2, THEN conjunct1, THEN mp]
  have pos: "0 < duration example_args 1 ?m"
    by (simp add: example_simps)
  have v: "video example_args = ''video.mkv''"
    by (simp add: example_simps)
  have ss: "fmt3 (video_start_time example_args 1 ?m) = ''0.000''"
    by (simp add: example_simps)
  have t: "fmt3 (duration example_args 1 ?m) = ''4.000''"
    by (simp add: example_simps)
  have f: "output_file example_args ?m = ''out/full-match-Match_1.mkv''"
    by (simp add: example_simps)
  have z: "offset example_args = 0" "startOffset example_args = 0" "endOffset example_args = 0"
    by (simp_all add: example_simps)
  from run [OF pos] vs_eq ve_eq s e show ?thesis
    unfolding v ss t f z by blast
qed

subsection \<open>C3: range filtering\<close>

text \<open>
  C3. Without a range every record passes through unchanged. With a range \<open>[lo, hi]\<close>
  the result is the list of the records that have a \<open>number\<close> with
  \<open>lo \<le> number \<le> hi\<close>, in their order: a record whose number is \<open>lo\<close> or \<open>hi\<close>
  is kept (for \<open>lo \<le> hi\<close>), a record without a number is dropped.
\<close>

theorem filter_matches_inclusive_range:
  "filter_matches ms None = ms \<and>
   filter_matches ms (Some (lo, hi)) = filter (in_range lo hi) ms \<and>
   (\<forall>m\<in>set ms. \<forall>n. number m = Some n \<and> lo \<le> hi \<and> (of_int n = lo \<or> of_int n = hi)
      \<longrightarrow> m \<in> set (filter_matches ms (Some (lo, hi)))) \<and>
   (\<forall>m\<in>set ms. number m = None \<longrightarrow> m \<notin> set (filter_matches ms (Some (lo, hi))))"
proof -
  have "filter_matches ms None = ms"
    by (simp add: filter_matches_def)
  moreover have f: "filter_matches ms (Some (lo, hi)) = filter (in_range lo hi) ms"
    by (auto simp: filter_matches_def in_range_def intro!: filter_cong split: option.splits)
  moreover have "\<forall>m\<in>set ms. \<forall>n. number m = Some n \<and> lo \<le> hi \<and> (of_int n = lo \<or> of_int n = hi)
      \<longrightarrow> m \<in> set (filter_matches ms (Some (lo, hi)))"
    unfolding f by (auto simp: in_range_def)
  moreover have "\<forall>m\<in>set ms. number m = None \<longrightarrow> m \<notin> set (filter_matches ms (Some (lo, hi)))"
    unfolding f by (simp add: in_range_def)
  ultimately show ?thesis by blast
qed

theorem filter_matches_inclusive_range_witness:
  "filter_matches [example_match 1 0 1, example_match 2 0 1, unnumbered_match 0 1,
                   example_match 3 0 1, example_match 4 0 1] (Some (2, 3))
     = [example_match 2 0 1, example_match 3 0 1] \<and>
   example_match 2 0 1 \<in> set (filter_matches [example_match 1 0 1, example_match 2 0 1, unnumbered_match 0 1,
                   example_match 3 0 1, example_match 4 0 1] (Some (2, 3))) \<and>
   unnumbered_match 0 1 \<notin> set (filter_matches [example_match 1 0 1, example_match 2 0 1, unnumbered_match 0 1,
                   example_match 3 0 1, example_match 4 0 1] (Some (2, 3)))"
  using filter_matches_inclusive_range
    [of "[example_match 1 0 1, example_match 2 0 1, unnumbered_match 0 1,
          example_match 3 0 1, example_match 4 0 1]" 2 3]
  by (simp add: in_range_def example_match_def unnumbered_match_def)

subsection \<open>C4: a duration that is not positive\<close>

text \<open>
  C4. A match of the sorted filtered list that has both event keys and a duration
  \<open>\<le> 0\<close> adds one line to the run, the \<open>Invalid duration ... Skipping\<close> message on
  standard error, and nothing else: no command is started for it, and the matches after
  it are processed from the world the matches before it left. The run ends with status 0.
\<close>

theorem nonpositive_duration_skipped:
  assumes "isfile e (json a)" "isfile e (video a)"
    and "load_json e (json a) ''matches'' = Some ms"
    and "find_reference_time (filter_matches ms (range_vals a)) (start_key a) = Some r"
    and "sorted_matches (filter_matches ms (range_vals a)) = pre @ m # post"
    and "events m (start_key a) \<noteq> None" "events m (end_key a) \<noteq> None"
    and "duration a r m \<le> 0"
    and "process_matches tool a r pre w = (l1, w1)"
    and "process_matches tool a r post w1 = (l2, w2)"
  shows "main tool e a w =
     (0, makedirs_log e a @ [reference_line a r] @ l1 @
         [Stderr (''Error: Invalid duration for match '' @ match_name m @
                  '' (start: '' @ fmt3 (video_start_time a r m) @
                  '', end: '' @ fmt3 (video_end_time a r m) @ ''). Skipping'')] @ l2,
      w2)"
proof -
  from assms(6-8) have "process_match tool a r m w1 = ([invalid_duration_line a r m], w1)"
    by (auto simp: process_match_def)
  from main_loop_at [OF assms(1-5) assms(9) this assms(10)] show ?thesis
    by (simp add: invalid_duration_line_def)
qed

theorem nonpositive_duration_skipped_witness:
  "main tool_ok (example_env [example_match 2 9000 7000, example_match 1 1000 5000])
     example_args () =
   (0, [Stdout (''Reference event time (from first match with '' @ [CHR 0x27] @ ''start'' @
                [CHR 0x27] @ ''): 1.000 seconds''),
        Stdout ''Processing match Match_1:'',
        Stdout ''  Start event time (wall clock): 1.000s, video start: 0.000s'',
        Stdout ''  End event time (wall clock):   5.000s, video end:   4.000s'',
        Stdout ''  Duration: 4.000s'',
        Stdout ''Running: ffmpeg -y -i video.mkv -ss 0.000 -t 4.000 -c copy out/full-match-Match_1.mkv'',
        Subprocess [''ffmpeg'', ''-y'', ''-i'', ''video.mkv'', ''-ss'', ''0.000'', ''-t'', ''4.000'',
                    ''-c'', ''copy'', ''out/full-match-Match_1.mkv''],
        Stderr ''Error: Invalid duration for match Match_2 (start: 8.000, end: 6.000). Skipping''],
    ())"
proof -
  let ?m1 = "example_match 1 1000 5000"
  let ?m2 = "example_match 2 9000 7000"
  let ?e = "example_env [?m2, ?m1]"
  let ?a = "example_args"
  have files: "isfile ?e (json ?a)" "isfile ?e (video ?a)"
    by (simp_all add: example_simps)
  have load: "load_json ?e (json ?a) ''matches'' = Some [?m2, ?m1]"
    by (simp add: example_simps)
  have ref: "find_reference_time (filter_matches [?m2, ?m1] (range_vals ?a)) (start_key ?a) = Some 1"
    by (simp add: find_reference_time_def sorted_matches_def filter_matches_def number_key_def
        example_simps)
  have order: "sorted_matches (filter_matches [?m2, ?m1] (range_vals ?a)) = [?m1] @ ?m2 # []"
    by (simp add: filter_matches_def sorted_matches_def number_key_def example_simps)
  have keys: "events ?m2 (start_key ?a) \<noteq> None" "events ?m2 (end_key ?a) \<noteq> None"
    by (simp_all add: example_simps)
  have dur: "duration ?a 1 ?m2 \<le> 0"
    by (simp add: example_simps)
  have before: "process_matches tool_ok ?a 1 [?m1] () =
     ([Stdout ''Processing match Match_1:'',
       Stdout ''  Start event time (wall clock): 1.000s, video start: 0.000s'',
       Stdout ''  End event time (wall clock):   5.000s, video end:   4.000s'',
       Stdout ''  Duration: 4.000s'',
       Stdout ''Running: ffmpeg -y -i video.mkv -ss 0.000 -t 4.000 -c copy out/full-match-Match_1.mkv'',
       Subprocess [''ffmpeg'', ''-y'', ''-i'', ''video.mkv'', ''-ss'', ''0.000'', ''-t'', ''4.000'',
                   ''-c'', ''copy'', ''out/full-match-Match_1.mkv'']], ())"
    by (simp add: process_match_def run_ffmpeg_def ffmpeg_cmd_def processing_lines_def tool_ok_def
        example_simps)
  have after: "process_matches tool_ok ?a 1 [] () = ([], ())"
    by simp
  from nonpositive_duration_skipped [OF files load ref order keys dur before after]
  show ?thesis
    by (simp add: makedirs_log_def reference_line_def example_simps)
qed

subsection \<open>C5: a missing event key\<close>

text \<open>
  C5, as amended. In a run that finds a reference time (some record of the filtered list
  has the start-event key), a match of the sorted filtered list that lacks the start-event
  key or the end-event key adds one line to the run, the \<open>missing event ... Skipping\<close>
  message on standard output, naming the start key when that is missing and the end key
  otherwise: no command is started for it, the matches after it are processed, and the
  run ends with status 0.
\<close>

theorem missing_event_skipped:
  assumes "isfile e (json a)" "isfile e (video a)"
    and "load_json e (json a) ''matches'' = Some ms"
    and "find_reference_time (filter_matches ms (range_vals a)) (start_key a) = Some r"
    and "sorted_matches (filter_matches ms (range_vals a)) = pre @ m # post"
    and "events m (start_key a) = None \<or> events m (end_key a) = None"
    and "process_matches tool a r pre w = (l1, w1)"
    and "process_matches tool a r post w1 = (l2, w2)"
  shows "main tool e a w =
     (0, makedirs_log e a @ [reference_line a r] @ l1 @
         [Stdout (''Match '' @ match_name m @ '' missing event '' @
                  (if events m (start_key a) = None then start_key a else end_key a) @
                  ''. Skipping'')] @ l2,
      w2)"
proof -
  from assms(6) have "process_match tool a r m w1 =
      ([missing_event_line m (if events m (start_key a) = None then start_key a else end_key a)], w1)"
    by (auto simp: process_match_def)
  from main_loop_at [OF assms(1-5) assms(7) this assms(8)] show ?thesis
    by (simp add: missing_event_line_def)
qed

theorem missing_event_skipped_witness:
  "main tool_ok (example_env [start_only_match 1 1000, example_match 2 9000 12000])
     example_args () =
   (0, [Stdout (''Reference event time (from first match with '' @ [CHR 0x27] @ ''start'' @
                [CHR 0x27] @ ''): 1.000 seconds''),
        Stdout ''Match Match_1 missing event end. Skipping'',
        Stdout ''Processing match Match_2:'',
        Stdout ''  Start event time (wall clock): 9.000s, video start: 8.000s'',
        Stdout ''  End event time (wall clock):   12.000s, video end:   11.000s'',
        Stdout ''  Duration: 3.000s'',
        Stdout ''Running: ffmpeg -y -i video.mkv -ss 8.000 -t 3.000 -c copy out/full-match-Match_2.mkv'',
        Subprocess [''ffmpeg'', ''-y'', ''-i'', ''video.mkv'', ''-ss'', ''8.000'', ''-t'', ''3.000'',
                    ''-c'', ''copy'', ''out/full-match-Match_2.mkv'']],
    ())"
proof -
  let ?m1 = "start_only_match 1 1000"
  let ?m2 = "example_match 2 9000 12000"
  let ?e = "example_env [?m1, ?m2]"
  let ?a = "example_args"
  have files: "isfile ?e (json ?a)" "isfile ?e (video ?a)"
    by (simp_all add: example_simps)
  have load: "load_json ?e (json ?a) ''matches'' = Some [?m1, ?m2]"
    by (simp add: example_simps)
  have ref: "find_reference_time (filter_matches [?m1, ?m2] (range_vals ?a)) (start_key ?a) = Some 1"
    by (simp add: find_reference_time_def sorted_matches_def filter_matches_def number_key_def
        example_simps)
  have order: "sorted_matches (filter_matches [?m1, ?m2] (range_vals ?a)) = [] @ ?m1 # [?m2]"
    by (simp add: filter_matches_def sorted_matches_def number_key_def example_simps)
  have key: "events ?m1 (start_key ?a) = None \<or> events ?m1 (end_key ?a) = None"
    by (simp add: example_simps)
  have before: "process_matches tool_ok ?a 1 [] () = ([], ())"
    by simp
  have after: "process_matches tool_ok ?a 1 [?m2] () =
     ([Stdout ''Processing match Match_2:'',
       Stdout ''  Start event time (wall clock): 9.000s, video start: 8.000s'',
       Stdout ''  End event time (wall clock):   12.000s, video end:   11.000s'',
       Stdout ''  Duration: 3.000s'',
       Stdout ''Running: ffmpeg -y -i video.mkv -ss 8.000 -t 3.000 -c copy out/full-match-Match_2.mkv'',
       Subprocess [''ffmpeg'', ''-y'', ''-i'', ''video.mkv'', ''-ss'', ''8.000'', ''-t'', ''3.000'',
                   ''-c'', ''copy'', ''out/full-match-Match_2.mkv'']], ())"
    by (simp add: process_match_def run_ffmpeg_def ffmpeg_cmd_def processing_lines_def tool_ok_def
        example_simps)
  from missing_event_skipped [OF files load ref order key before after]
  show ?thesis
    by (simp add: makedirs_log_def reference_line_def example_simps)
qed

text \<open>
  The claim as stated, for every record that lacks the start-event key, fails when no
  record of the filtered list has the key: \<open>main\<close> then ends with status 1 before the
  loop, and no \<open>Skipping\<close> line is printed for the record.
\<close>

theorem missing_start_everywhere_counterexample:
  "events (end_only_match 1 5000) (start_key example_args) = None \<and>
   main tool_ok (example_env [end_only_match 1 5000]) example_args () =
     (1, [Stderr (''No matches in the specified range contain the start event key '' @
                  [CHR 0x27] @ ''start'' @ [CHR 0x27] @ ''.'')], ())"
  by (simp add: main_def find_reference_time_def sorted_matches_def filter_matches_def
      makedirs_log_def no_start_event_def example_simps)

subsection \<open>C6: the exit status\<close>

text \<open>
  C6, as amended. The exit status is 1 exactly when the JSON file or the video file is
  missing, an exception that nothing catches ends the run, the \<open>matches\<close> key is absent,
  or the filtered list has no record with the start-event key (the filtered list not being
  empty, which is the next case); it is 0 or 1 in every run. When the filtered list is
  empty, and neither \<open>os.makedirs\<close> nor \<open>load_json\<close> has raised, the run prints
  \<open>No matches found for the specified range.\<close> and ends with status 0. The status is
  the same whatever a tool that returns answers: a failing clip does not change it. In a
  run where nothing raises (the directory can be created, the file can be loaded, every
  timestamp of the two event keys converts, the tool returns) the status is 1 exactly in
  the four cases without the exception.
\<close>

theorem exit_status_with_exceptions:
  "(status (fst (main_raising tool e a w)) = 1 \<longleftrightarrow>
      \<not> isfile (files e) (json a) \<or> \<not> isfile (files e) (video a) \<or>
      (\<exists>x. fst (main_raising tool e a w) = Uncaught x) \<or>
      load_json (files e) (json a) ''matches'' = None \<or>
      (\<exists>ms. load_json (files e) (json a) ''matches'' = Some ms \<and>
            filter_matches ms (range_vals a) \<noteq> [] \<and>
            (\<forall>m\<in>set (filter_matches ms (range_vals a)). events m (start_key a) = None))) \<and>
   (status (fst (main_raising tool e a w)) = 0 \<or> status (fst (main_raising tool e a w)) = 1) \<and>
   (isfile (files e) (json a) \<and> isfile (files e) (video a) \<and>
    (isdir (files e) (out a) \<or> makedirs_raises e (out a) = None) \<and>
    load_json_raises e (json a) = None \<and>
    load_json (files e) (json a) ''matches'' = Some ms \<and>
    filter_matches ms (range_vals a) = [] \<longrightarrow>
      main_raising tool e a w =
        (Exit 0, makedirs_log (files e) a @ [Stderr ''No matches found for the specified range.''],
         w)) \<and>
   status (fst (main_raising (returning t') e a w')) =
     status (fst (main_raising (returning t) e a w)) \<and>
   ((isdir (files e) (out a) \<or> makedirs_raises e (out a) = None) \<and>
    load_json_raises e (json a) = None \<and>
    (\<forall>ms. load_json (files e) (json a) ''matches'' = Some ms \<longrightarrow>
       (\<forall>m\<in>set ms. converts (start_key a) m \<and> converts (end_key a) m)) \<longrightarrow>
      (status (fst (main_raising (returning t) e a w)) = 1 \<longleftrightarrow>
         \<not> isfile (files e) (json a) \<or> \<not> isfile (files e) (video a) \<or>
         load_json (files e) (json a) ''matches'' = None \<or>
         (\<exists>ms. load_json (files e) (json a) ''matches'' = Some ms \<and>
               filter_matches ms (range_vals a) \<noteq> [] \<and>
               (\<forall>m\<in>set (filter_matches ms (range_vals a)). events m (start_key a) = None))))"
proof -
  have one: "status (fst (main_raising tool e a w)) = 1 \<longleftrightarrow>
      \<not> isfile (files e) (json a) \<or> \<not> isfile (files e) (video a) \<or>
      (\<exists>x. fst (main_raising tool e a w) = Uncaught x) \<or>
      load_json (files e) (json a) ''matches'' = None \<or>
      (\<exists>ms. load_json (files e) (json a) ''matches'' = Some ms \<and>
            filter_matches ms (range_vals a) \<noteq> [] \<and>
            (\<forall>m\<in>set (filter_matches ms (range_vals a)). events m (start_key a) = None))"
    unfolding main_raising_outcome
    by (auto simp: find_reference_time_raising_None [symmetric]
        split: option.splits sum.splits)
  have two: "status (fst (main_raising tool e a w)) = 0 \<or>
      status (fst (main_raising tool e a w)) = 1"
    unfolding main_raising_outcome by (simp split: option.splits sum.splits)
  have three: "main_raising tool e a w =
        (Exit 0, makedirs_log (files e) a @ [Stderr ''No matches found for the specified range.''],
         w)"
    if "isfile (files e) (json a) \<and> isfile (files e) (video a) \<and>
      (isdir (files e) (out a) \<or> makedirs_raises e (out a) = None) \<and>
      load_json_raises e (json a) = None \<and>
      load_json (files e) (json a) ''matches'' = Some ms \<and>
      filter_matches ms (range_vals a) = []"
    using that by (auto simp: main_raising_def no_matches_found_def)
  have four: "status (fst (main_raising (returning t') e a w')) =
      status (fst (main_raising (returning t) e a w))"
    unfolding main_raising_outcome process_matches_raising_tool_free ..
  have five: "status (fst (main_raising (returning t) e a w)) = 1 \<longleftrightarrow>
         \<not> isfile (files e) (json a) \<or> \<not> isfile (files e) (video a) \<or>
         load_json (files e) (json a) ''matches'' = None \<or>
         (\<exists>ms. load_json (files e) (json a) ''matches'' = Some ms \<and>
               filter_matches ms (range_vals a) \<noteq> [] \<and>
               (\<forall>m\<in>set (filter_matches ms (range_vals a)). events m (start_key a) = None))"
    if "(isdir (files e) (out a) \<or> makedirs_raises e (out a) = None) \<and>
      load_json_raises e (json a) = None \<and>
      (\<forall>ms. load_json (files e) (json a) ''matches'' = Some ms \<longrightarrow>
         (\<forall>m\<in>set ms. converts (start_key a) m \<and> converts (end_key a) m))"
  proof -
    note mk = that [THEN conjunct1]
      and ld = that [THEN conjunct2, THEN conjunct1]
      and cv = that [THEN conjunct2, THEN conjunct2]
    have "main_raising (returning t) e a w =
        (Exit (fst (main t (files e) a w)), snd (main t (files e) a w))"
      by (rule main_raising_returns [OF mk ld cv])
    then have "status (fst (main_raising (returning t) e a w)) = fst (main t (files e) a w)"
      by simp
    then show ?thesis
      unfolding main_exit_code by (auto split: option.splits)
  qed
  from one two three four five show ?thesis by blast
qed

theorem exit_status_with_exceptions_witness:
  "main_raising (returning tool_ok) (example_raising_env [example_match 1 1000 5000])
        (example_args\<lparr>range_vals := Some (2, 2)\<rparr>) ()
     = (Exit 0, [Stderr ''No matches found for the specified range.''], ()) \<and>
   status (fst (main_raising (returning tool_ok) (example_raising_env [example_match 1 1000 5000])
        (example_args\<lparr>start_key := ''kickoff''\<rparr>) ())) = 1 \<and>
   status (fst (main_raising (returning tool_fail) (example_raising_env [example_match 1 1000 5000])
        example_args ())) = 0 \<and>
   status (fst (main_raising tool_missing (example_raising_env [example_match 1 1000 5000])
        example_args ())) = 1"
proof -
  let ?e = "example_raising_env [example_match 1 1000 5000]"
  let ?a = "example_args\<lparr>range_vals := Some (2, 2)\<rparr>"
  let ?b = "example_args\<lparr>start_key := ''kickoff''\<rparr>"
  note one = exit_status_with_exceptions [THEN conjunct1]
  note two = exit_status_with_exceptions [THEN conjunct2, THEN conjunct1]
  note three = exit_status_with_exceptions [THEN conjunct2, THEN conjunct2, THEN conjunct1, THEN mp]
  note five = exit_status_with_exceptions
    [THEN conjunct2, THEN conjunct2, THEN conjunct2, THEN conjunct2, THEN mp]
  have "isfile (files ?e) (json ?a) \<and> isfile (files ?e) (video ?a) \<and>
      (isdir (files ?e) (out ?a) \<or> makedirs_raises ?e (out ?a) = None) \<and>
      load_json_raises ?e (json ?a) = None \<and>
      load_json (files ?e) (json ?a) ''matches'' = Some [example_match 1 1000 5000] \<and>
      filter_matches [example_match 1 1000 5000] (range_vals ?a) = []"
    by (simp add: example_raising_env_def example_env_def example_args_def example_match_def
        filter_matches_def)
  from three [OF this]
  have "main_raising (returning tool_ok) ?e ?a () =
      (Exit 0, makedirs_log (files ?e) ?a @ [Stderr ''No matches found for the specified range.''],
       ())" .
  then have first: "main_raising (returning tool_ok) ?e ?a () =
      (Exit 0, [Stderr ''No matches found for the specified range.''], ())"
    by (simp add: makedirs_log_def example_raising_env_def example_env_def example_args_def)
  have "load_json (files ?e) (json ?b) ''matches'' = Some [example_match 1 1000 5000] \<and>
      filter_matches [example_match 1 1000 5000] (range_vals ?b) \<noteq> [] \<and>
      (\<forall>m\<in>set (filter_matches [example_match 1 1000 5000] (range_vals ?b)).
          events m (start_key ?b) = None)"
    by (simp add: example_raising_env_def example_env_def example_args_def example_match_def
        filter_matches_def)
  then have second: "status (fst (main_raising (returning tool_ok) ?e ?b ())) = 1"
    unfolding one by blast
  have "(isdir (files ?e) (out example_args) \<or> makedirs_raises ?e (out example_args) = None) \<and>
      load_json_raises ?e (json example_args) = None \<and>
      (\<forall>ms. load_json (files ?e) (json example_args) ''matches'' = Some ms \<longrightarrow>
         (\<forall>m\<in>set ms. converts (start_key example_args) m \<and> converts (end_key example_args) m))"
    by (simp add: example_raising_env_simps example_env_simps example_args_simps
        converts_example_match)
  note iff = five [OF this]
  have "\<not> (\<not> isfile (files ?e) (json example_args) \<or> \<not> isfile (files ?e) (video example_args) \<or>
      load_json (files ?e) (json example_args) ''matches'' = None \<or>
      (\<exists>ms. load_json (files ?e) (json example_args) ''matches'' = Some ms \<and>
         filter_matches ms (range_vals example_args) \<noteq> [] \<and>
         (\<forall>m\<in>set (filter_matches ms (range_vals example_args)).
            events m (start_key example_args) = None)))"
    by (simp add: example_raising_env_def example_env_def example_args_def example_match_def
        filter_matches_def)
  then have "status (fst (main_raising (returning tool_fail) ?e example_args ())) \<noteq> 1"
    unfolding iff .
  with two [of "returning tool_fail" ?e example_args "()"]
  have third: "status (fst (main_raising (returning tool_fail) ?e example_args ())) = 0"
    by simp
  have "fst (main_raising tool_missing ?e example_args ()) = Uncaught OSError"
    by (simp add: main_raising_def find_reference_time_raising_def sorted_matches_def
        filter_matches_def process_match_raising_def run_ffmpeg_raising_def tool_missing_def
        Let_def example_raising_env_simps truediv_raising_values example_simps)
  then have "\<exists>x. fst (main_raising tool_missing ?e example_args ()) = Uncaught x" ..
  then have fourth: "status (fst (main_raising tool_missing ?e example_args ())) = 1"
    unfolding one by blast
  from first second third fourth show ?thesis by blast
qed

text \<open>
  The claim as stated, with status 1 exactly in the four cases, fails where a call raises.
  With both files present, the \<open>matches\<close> key present and a match that has the
  start-event key, the run ends with status 1 when \<open>ffmpeg\<close> cannot be started: the
  lines of the match and the \<open>Running\<close> line are printed, then \<open>subprocess.run\<close>
  raises. So it does when the output directory cannot be created, and when the file does
  not hold JSON.
\<close>

theorem uncaught_exception_counterexample:
  "main_raising tool_missing (example_raising_env [example_match 1 1000 5000]) example_args () =
     (Uncaught OSError,
      [Stdout (''Reference event time (from first match with '' @ [CHR 0x27] @ ''start'' @
               [CHR 0x27] @ ''): 1.000 seconds''),
       Stdout ''Processing match Match_1:'',
       Stdout ''  Start event time (wall clock): 1.000s, video start: 0.000s'',
       Stdout ''  End event time (wall clock):   5.000s, video end:   4.000s'',
       Stdout ''  Duration: 4.000s'',
       Stdout ''Running: ffmpeg -y -i video.mkv -ss 0.000 -t 4.000 -c copy out/full-match-Match_1.mkv'',
       Subprocess [''ffmpeg'', ''-y'', ''-i'', ''video.mkv'', ''-ss'', ''0.000'', ''-t'', ''4.000'',
                   ''-c'', ''copy'', ''out/full-match-Match_1.mkv'']],
      ()) \<and>
   status (Uncaught OSError) = 1 \<and>
   isfile (files (example_raising_env [example_match 1 1000 5000])) (json example_args) \<and>
   isfile (files (example_raising_env [example_match 1 1000 5000])) (video example_args) \<and>
   load_json (files (example_raising_env [example_match 1 1000 5000])) (json example_args)
     ''matches'' = Some [example_match 1 1000 5000] \<and>
   filter_matches [example_match 1 1000 5000] (range_vals example_args)
     = [example_match 1 1000 5000] \<and>
   events (example_match 1 1000 5000) (start_key example_args) = Some 1000 \<and>
   main_raising (returning tool_ok)
     ((example_raising_env [example_match 1 1000 5000])
        \<lparr>files := (example_env [example_match 1 1000 5000])\<lparr>isdir := (\<lambda>p. False)\<rparr>,
         makedirs_raises := (\<lambda>p. Some OSError)\<rparr>) example_args () =
     (Uncaught OSError, [Makedirs ''out''], ()) \<and>
   main_raising (returning tool_ok)
     ((example_raising_env [example_match 1 1000 5000])
        \<lparr>load_json_raises := (\<lambda>p. Some JSONDecodeError)\<rparr>) example_args () =
     (Uncaught JSONDecodeError, [], ())"
proof -
  have a: "main_raising tool_missing (example_raising_env [example_match 1 1000 5000])
      example_args () =
     (Uncaught OSError,
      [Stdout (''Reference event time (from first match with '' @ [CHR 0x27] @ ''start'' @
               [CHR 0x27] @ ''): 1.000 seconds''),
       Stdout ''Processing match Match_1:'',
       Stdout ''  Start event time (wall clock): 1.000s, video start: 0.000s'',
       Stdout ''  End event time (wall clock):   5.000s, video end:   4.000s'',
       Stdout ''  Duration: 4.000s'',
       Stdout ''Running: ffmpeg -y -i video.mkv -ss 0.000 -t 4.000 -c copy out/full-match-Match_1.mkv'',
       Subprocess [''ffmpeg'', ''-y'', ''-i'', ''video.mkv'', ''-ss'', ''0.000'', ''-t'', ''4.000'',
                   ''-c'', ''copy'', ''out/full-match-Match_1.mkv'']],
      ())"
    by (simp add: main_raising_def find_reference_time_raising_def sorted_matches_def
        filter_matches_def makedirs_log_def reference_line_def process_match_raising_def
        processing_lines_def run_ffmpeg_raising_def ffmpeg_cmd_def Let_def
        tool_missing_def example_raising_env_simps truediv_raising_values example_simps)
  have b: "isfile (files (example_raising_env [example_match 1 1000 5000])) (json example_args) \<and>
   isfile (files (example_raising_env [example_match 1 1000 5000])) (video example_args) \<and>
   load_json (files (example_raising_env [example_match 1 1000 5000])) (json example_args)
     ''matches'' = Some [example_match 1 1000 5000] \<and>
   filter_matches [example_match 1 1000 5000] (range_vals example_args)
     = [example_match 1 1000 5000] \<and>
   events (example_match 1 1000 5000) (start_key example_args) = Some 1000"
    by (simp add: filter_matches_def example_raising_env_simps example_simps)
  have c: "main_raising (returning tool_ok)
     ((example_raising_env [example_match 1 1000 5000])
        \<lparr>files := (example_env [example_match 1 1000 5000])\<lparr>isdir := (\<lambda>p. False)\<rparr>,
         makedirs_raises := (\<lambda>p. Some OSError)\<rparr>) example_args () =
     (Uncaught OSError, [Makedirs ''out''], ())"
    by (simp add: main_raising_def makedirs_log_def example_simps)
  have d: "main_raising (returning tool_ok)
     ((example_raising_env [example_match 1 1000 5000])
        \<lparr>load_json_raises := (\<lambda>p. Some JSONDecodeError)\<rparr>) example_args () =
     (Uncaught JSONDecodeError, [], ())"
    by (simp add: main_raising_def makedirs_log_def example_raising_env_simps example_simps)
  from a b c d show ?thesis by simp
qed

subsection \<open>C7: a failing tool\<close>

text \<open>
  C7. For a surviving match of the sorted filtered list, when the tool ends with a status
  other than 0, the run prints \<open>Error processing <output file>:\<close> followed by the
  captured standard error of the tool, after the lines and the command of the match; the
  matches after it are processed, from the world the tool left, and the run ends with
  status 0.
\<close>

theorem tool_failure_reported:
  assumes "isfile e (json a)" "isfile e (video a)"
    and "load_json e (json a) ''matches'' = Some ms"
    and "find_reference_time (filter_matches ms (range_vals a)) (start_key a) = Some r"
    and "sorted_matches (filter_matches ms (range_vals a)) = pre @ m # post"
    and "events m (start_key a) \<noteq> None" "events m (end_key a) \<noteq> None"
    and "0 < duration a r m"
    and "process_matches tool a r pre w = (l1, w1)"
    and "tool (ffmpeg_cmd (video a) (video_start_time a r m) (duration a r m) (output_file a m)) w1
           = ((returncode, err), w1')"
    and "returncode \<noteq> 0"
    and "process_matches tool a r post w1' = (l2, w2)"
  shows "main tool e a w =
     (0, makedirs_log e a @ [reference_line a r] @ l1 @ processing_lines a r m @
         [Stdout (''Running: '' @ join_space (ffmpeg_cmd (video a) (video_start_time a r m)
                    (duration a r m) (output_file a m))),
          Subprocess (ffmpeg_cmd (video a) (video_start_time a r m) (duration a r m)
                    (output_file a m)),
          Stderr (''Error processing '' @ output_file a m @ '':'' @ [CHR 0x0A] @ err)] @ l2,
      w2)"
proof -
  from assms(10,11)
  have "run_ffmpeg tool (video a) (video_start_time a r m) (duration a r m) (output_file a m) w1 =
      ([Stdout (''Running: '' @ join_space (ffmpeg_cmd (video a) (video_start_time a r m)
                    (duration a r m) (output_file a m))),
        Subprocess (ffmpeg_cmd (video a) (video_start_time a r m) (duration a r m)
                    (output_file a m)),
        error_processing (output_file a m) err], w1')"
    by (simp add: run_ffmpeg_def Let_def)
  with assms(6-8) have "process_match tool a r m w1 =
      (processing_lines a r m @
       [Stdout (''Running: '' @ join_space (ffmpeg_cmd (video a) (video_start_time a r m)
                    (duration a r m) (output_file a m))),
        Subprocess (ffmpeg_cmd (video a) (video_start_time a r m) (duration a r m)
                    (output_file a m)),
        error_processing (output_file a m) err], w1')"
    by (auto simp: process_match_def)
  from main_loop_at [OF assms(1-5) assms(9) this assms(12)] show ?thesis
    by (simp add: error_processing_def)
qed

theorem tool_failure_reported_witness:
  "main tool_fail (example_env [example_match 1 1000 5000, start_only_match 2 9000])
     example_args () =
   (0, [Stdout (''Reference event time (from first match with '' @ [CHR 0x27] @ ''start'' @
                [CHR 0x27] @ ''): 1.000 seconds''),
        Stdout ''Processing match Match_1:'',
        Stdout ''  Start event time (wall clock): 1.000s, video start: 0.000s'',
        Stdout ''  End event time (wall clock):   5.000s, video end:   4.000s'',
        Stdout ''  Duration: 4.000s'',
        Stdout ''Running: ffmpeg -y -i video.mkv -ss 0.000 -t 4.000 -c copy out/full-match-Match_1.mkv'',
        Subprocess [''ffmpeg'', ''-y'', ''-i'', ''video.mkv'', ''-ss'', ''0.000'', ''-t'', ''4.000'',
                    ''-c'', ''copy'', ''out/full-match-Match_1.mkv''],
        Stderr (''Error processing out/full-match-Match_1.mkv:'' @ [CHR 0x0A] @ ''Invalid data found''),
        Stdout ''Match Match_2 missing event end. Skipping''],
    ())"
proof -
  let ?m1 = "example_match 1 1000 5000"
  let ?m2 = "start_only_match 2 9000"
  let ?e = "example_env [?m1, ?m2]"
  let ?a = "example_args"
  have files: "isfile ?e (json ?a)" "isfile ?e (video ?a)"
    by (simp_all add: example_simps)
  have load: "load_json ?e (json ?a) ''matches'' = Some [?m1, ?m2]"
    by (simp add: example_simps)
  have ref: "find_reference_time (filter_matches [?m1, ?m2] (range_vals ?a)) (start_key ?a) = Some 1"
    by (simp add: find_reference_time_def sorted_matches_def filter_matches_def number_key_def
        example_simps)
  have order: "sorted_matches (filter_matches [?m1, ?m2] (range_vals ?a)) = [] @ ?m1 # [?m2]"
    by (simp add: filter_matches_def sorted_matches_def number_key_def example_simps)
  have keys: "events ?m1 (start_key ?a) \<noteq> None" "events ?m1 (end_key ?a) \<noteq> None"
    by (simp_all add: example_simps)
  have dur: "0 < duration ?a 1 ?m1"
    by (simp add: example_simps)
  have before: "process_matches tool_fail ?a 1 [] () = ([], ())"
    by simp
  have fails: "tool_fail (ffmpeg_cmd (video ?a) (video_start_time ?a 1 ?m1) (duration ?a 1 ?m1)
      (output_file ?a ?m1)) () = ((1, ''Invalid data found''), ())"
    by (simp add: tool_fail_def)
  have nonzero: "(1::int) \<noteq> 0"
    by simp
  have after: "process_matches tool_fail ?a 1 [?m2] () =
      ([Stdout ''Match Match_2 missing event end. Skipping''], ())"
    by (simp add: process_match_def missing_event_line_def example_simps)
  from tool_failure_reported [OF files load ref order keys dur before fails nonzero after]
  show ?thesis
    by (simp add: makedirs_log_def reference_line_def processing_lines_def ffmpeg_cmd_def
        example_simps)
qed

subsection \<open>C8: the output files\<close>

text \<open>
  C8, as amended. A run that reaches the loop starts exactly one command for every
  surviving match of the sorted filtered list, in order, and none for the others; the
  output path of the command is the output directory joined with
  \<open>full-match-<name>.mkv\<close>, where \<open><name>\<close> is the \<open>name\<close> field of the match when
  present, and otherwise \<open>Match_\<close> followed by its number, or \<open>Match_unknown\<close> when
  the record has no number either.
\<close>

theorem one_command_per_surviving_match:
  assumes "isfile e (json a)" "isfile e (video a)"
    and "load_json e (json a) ''matches'' = Some ms"
    and "find_reference_time (filter_matches ms (range_vals a)) (start_key a) = Some r"
  shows "subprocess_outputs (fst (snd (main tool e a w))) =
       map (output_file a)
         (filter (survives a r) (sorted_matches (filter_matches ms (range_vals a)))) \<and>
     (\<forall>m. output_file a m =
        path_join (out a)
          (''full-match-'' @
           (case name m of
              Some s \<Rightarrow> s
            | None \<Rightarrow> (case number m of
                         Some n \<Rightarrow> ''Match_'' @ str_int n
                       | None \<Rightarrow> ''Match_unknown'')) @
           ''.mkv''))"
proof -
  obtain l w' where
    l: "process_matches tool a r (sorted_matches (filter_matches ms (range_vals a))) w = (l, w')"
    by (cases "process_matches tool a r (sorted_matches (filter_matches ms (range_vals a))) w")
  from subprocess_outputs_process_matches
    [of tool a r "sorted_matches (filter_matches ms (range_vals a))" w] l
  have "subprocess_outputs l =
      map (output_file a)
        (filter (survives a r) (sorted_matches (filter_matches ms (range_vals a))))"
    by simp
  with main_reaches_loop [OF assms l]
  have "subprocess_outputs (fst (snd (main tool e a w))) =
       map (output_file a)
         (filter (survives a r) (sorted_matches (filter_matches ms (range_vals a))))"
    by (simp add: subprocess_outputs_append makedirs_log_def reference_line_def)
  moreover have "output_file a m =
        path_join (out a)
          (''full-match-'' @
           (case name m of
              Some s \<Rightarrow> s
            | None \<Rightarrow> (case number m of
                         Some n \<Rightarrow> ''Match_'' @ str_int n
                       | None \<Rightarrow> ''Match_unknown'')) @
           ''.mkv'')" for m
    by (simp add: output_file_def match_name_def split: option.splits)
  ultimately show ?thesis by blast
qed

theorem one_command_per_surviving_match_witness:
  "subprocess_outputs
     (fst (snd (main tool_ok
       (example_env [example_match 7 1000 5000, named_match 2 ''Final'' 9000 12000,
                     start_only_match 3 20000])
       example_args ())))
     = [''out/full-match-Final.mkv'', ''out/full-match-Match_7.mkv'']"
proof -
  let ?m7 = "example_match 7 1000 5000"
  let ?m2 = "named_match 2 ''Final'' 9000 12000"
  let ?m3 = "start_only_match 3 20000"
  let ?e = "example_env [?m7, ?m2, ?m3]"
  let ?a = "example_args"
  have files: "isfile ?e (json ?a)" "isfile ?e (video ?a)"
    by (simp_all add: example_simps)
  have load: "load_json ?e (json ?a) ''matches'' = Some [?m7, ?m2, ?m3]"
    by (simp add: example_simps)
  have order: "sorted_matches (filter_matches [?m7, ?m2, ?m3] (range_vals ?a)) = [?m2, ?m3, ?m7]"
    by (simp add: filter_matches_def sorted_matches_def number_key_def example_simps)
  have ref: "find_reference_time (filter_matches [?m7, ?m2, ?m3] (range_vals ?a)) (start_key ?a)
      = Some 9"
    unfolding find_reference_time_def order by (simp add: example_simps)
  have s2: "survives ?a 9 ?m2" by (simp add: survives_def example_simps)
  have s3: "\<not> survives ?a 9 ?m3" by (simp add: survives_def example_simps)
  have s7: "survives ?a 9 ?m7" by (simp add: survives_def example_simps)
  have f2: "output_file ?a ?m2 = ''out/full-match-Final.mkv''" by (simp add: example_simps)
  have f7: "output_file ?a ?m7 = ''out/full-match-Match_7.mkv''" by (simp add: example_simps)
  from one_command_per_surviving_match [OF files load ref, THEN conjunct1, of tool_ok "()"]
  show ?thesis
    unfolding order by (simp add: s2 s3 s7 f2 f7)
qed

text \<open>
  The claim as stated, with the number as the name component of a match without a name,
  fails for the match number 7: the output file is \<open>full-match-Match_7.mkv\<close>, not
  \<open>full-match-7.mkv\<close>.
\<close>

theorem output_named_by_number_counterexample:
  "subprocess_outputs
     (fst (snd (main tool_ok (example_env [example_match 7 1000 5000]) example_args ())))
     = [''out/full-match-Match_7.mkv''] \<and>
   subprocess_outputs
     (fst (snd (main tool_ok (example_env [example_match 7 1000 5000]) example_args ())))
     \<noteq> [path_join (out example_args) (''full-match-'' @ str_int 7 @ ''.mkv'')]"
proof -
  let ?m7 = "example_match 7 1000 5000"
  let ?e = "example_env [?m7]"
  let ?a = "example_args"
  have files: "isfile ?e (json ?a)" "isfile ?e (video ?a)"
    by (simp_all add: example_simps)
  have load: "load_json ?e (json ?a) ''matches'' = Some [?m7]"
    by (simp add: example_simps)
  have order: "sorted_matches (filter_matches [?m7] (range_vals ?a)) = [?m7]"
    by (simp add: filter_matches_def sorted_matches_def example_simps)
  have ref: "find_reference_time (filter_matches [?m7] (range_vals ?a)) (start_key ?a) = Some 1"
    unfolding find_reference_time_def order by (simp add: example_simps)
  obtain l w' where run: "process_matches tool_ok ?a 1 [?m7] () = (l, w')"
    by (cases "process_matches tool_ok ?a 1 [?m7] ()")
  from subprocess_outputs_process_matches [of tool_ok ?a 1 "[?m7]" "()"] run
  have l: "subprocess_outputs l = [''out/full-match-Match_7.mkv'']"
    by (simp add: survives_def example_simps)
  from run have "process_matches tool_ok ?a 1
      (sorted_matches (filter_matches [?m7] (range_vals ?a))) () = (l, w')"
    by (simp only: order)
  from main_reaches_loop [OF files load ref this] l
  have "subprocess_outputs (fst (snd (main tool_ok ?e ?a ()))) = [''out/full-match-Match_7.mkv'']"
    by (simp add: subprocess_outputs_append makedirs_log_def reference_line_def)
  then show ?thesis
    by (simp add: example_simps)
qed

subsection \<open>C9: the duration and the offset\<close>

text \<open>
  C9, as amended. For a match record with both event keys the duration equals
  \<open>(end_ms - start_ms) / 1000 + endOffset - startOffset\<close>, whatever the offset and the
  reference time, when no float operation of the computation rounds: the two quotients,
  the two differences with the reference time, the four sums and the final difference are
  binary64 values.
\<close>

theorem duration_without_rounding:
  assumes "events m (start_key a) = Some s" and "events m (end_key a) = Some e"
    and "representable (of_int s / 1000)"
    and "representable (of_int e / 1000)"
    and "representable (of_int s / 1000 - r)"
    and "representable (of_int e / 1000 - r)"
    and "representable (of_int s / 1000 - r + offset a)"
    and "representable (of_int e / 1000 - r + offset a)"
    and "representable (of_int s / 1000 - r + offset a + startOffset a)"
    and "representable (of_int e / 1000 - r + offset a + endOffset a)"
    and "representable (of_int (e - s) / 1000 + endOffset a - startOffset a)"
  shows "duration a r m = of_int (e - s) / 1000 + endOffset a - startOffset a"
proof -
  have ts: "truediv s 1000 = of_int s / 1000"
    using assms(3) by (simp add: truediv_def representable_def)
  have te: "truediv e 1000 = of_int e / 1000"
    using assms(4) by (simp add: truediv_def representable_def)
  have s1: "fsub (of_int s / 1000) r = of_int s / 1000 - r"
    using assms(5) by (simp add: fsub_def representable_def)
  have e1: "fsub (of_int e / 1000) r = of_int e / 1000 - r"
    using assms(6) by (simp add: fsub_def representable_def)
  have s2: "fadd (of_int s / 1000 - r) (offset a) = of_int s / 1000 - r + offset a"
    using assms(7) by (simp add: fadd_def representable_def)
  have e2: "fadd (of_int e / 1000 - r) (offset a) = of_int e / 1000 - r + offset a"
    using assms(8) by (simp add: fadd_def representable_def)
  have s3: "fadd (of_int s / 1000 - r + offset a) (startOffset a) =
      of_int s / 1000 - r + offset a + startOffset a"
    using assms(9) by (simp add: fadd_def representable_def)
  have e3: "fadd (of_int e / 1000 - r + offset a) (endOffset a) =
      of_int e / 1000 - r + offset a + endOffset a"
    using assms(10) by (simp add: fadd_def representable_def)
  have vs: "video_start_time a r m = of_int s / 1000 - r + offset a + startOffset a"
    unfolding video_start_time_def assms(1) option.sel ts s1 s2 s3 ..
  have ve: "video_end_time a r m = of_int e / 1000 - r + offset a + endOffset a"
    unfolding video_end_time_def assms(2) option.sel te e1 e2 e3 ..
  have diff: "(of_int e / 1000 - r + offset a + endOffset a) -
      (of_int s / 1000 - r + offset a + startOffset a) =
      of_int (e - s) / 1000 + endOffset a - startOffset a"
    by (simp add: diff_divide_distrib)
  have "duration a r m = fl (of_int (e - s) / 1000 + endOffset a - startOffset a)"
    unfolding duration_def vs ve fsub_def diff ..
  with assms(11) show ?thesis
    by (simp add: representable_def)
qed

theorem duration_without_rounding_witness:
  "representable (of_int 1000 / 1000) \<and> representable (of_int 5000 / 1000) \<and>
   duration example_args 1 (example_match 1 1000 5000) = 4 \<and>
   duration (example_args\<lparr>offset := 30\<rparr>) 1 (example_match 1 1000 5000) = 4"
proof -
  let ?m = "example_match 1 1000 5000"
  let ?b = "example_args\<lparr>offset := 30\<rparr>"
  have s: "events ?m (start_key example_args) = Some 1000" "events ?m (start_key ?b) = Some 1000"
    by (simp_all add: example_simps)
  have e: "events ?m (end_key example_args) = Some 5000" "events ?m (end_key ?b) = Some 5000"
    by (simp_all add: example_simps)
  have r: "representable 0" "representable 1" "representable 4" "representable 5"
    "representable 30" "representable 34"
    by code_simp+
  have r1: "representable (of_int 1000 / 1000)" using r by simp
  have r2: "representable (of_int 5000 / 1000)" using r by simp
  have r3: "representable (of_int 1000 / 1000 - 1)" using r by simp
  have r4: "representable (of_int 5000 / 1000 - 1)" using r by simp
  have r5: "representable (of_int 1000 / 1000 - 1 + offset example_args)"
    using r by (simp add: example_simps)
  have r6: "representable (of_int 5000 / 1000 - 1 + offset example_args)"
    using r by (simp add: example_simps)
  have r7: "representable (of_int 1000 / 1000 - 1 + offset example_args + startOffset example_args)"
    using r by (simp add: example_simps)
  have r8: "representable (of_int 5000 / 1000 - 1 + offset example_args + endOffset example_args)"
    using r by (simp add: example_simps)
  have r9: "representable (of_int (5000 - 1000) / 1000 + endOffset example_args -
      startOffset example_args)"
    using r by (simp add: example_simps)
  have q5: "representable (of_int 1000 / 1000 - 1 + offset ?b)"
    using r by (simp add: example_simps)
  have q6: "representable (of_int 5000 / 1000 - 1 + offset ?b)"
    using r by (simp add: example_simps)
  have q7: "representable (of_int 1000 / 1000 - 1 + offset ?b + startOffset ?b)"
    using r by (simp add: example_simps)
  have q8: "representable (of_int 5000 / 1000 - 1 + offset ?b + endOffset ?b)"
    using r by (simp add: example_simps)
  have q9: "representable (of_int (5000 - 1000) / 1000 + endOffset ?b - startOffset ?b)"
    using r by (simp add: example_simps)
  from duration_without_rounding [OF s(1) e(1) r1 r2 r3 r4 r5 r6 r7 r8 r9]
  have "duration example_args 1 ?m = 4"
    by (simp add: example_simps)
  moreover from duration_without_rounding [OF s(2) e(2) r1 r2 r3 r4 q5 q6 q7 q8 q9]
  have "duration ?b 1 ?m = 4"
    by (simp add: example_simps)
  ultimately show ?thesis using r1 r2 by blast
qed

text \<open>
  The claim as stated fails where an operation rounds. For the events at 0 and 1
  milliseconds the offset 1 gives the duration \<open>1.001 - 1.0 = 0.0009999999999998899\<close>,
  the offset 0 the float \<open>0.001\<close>. With the offset \<open>2 ^ 60\<close> the four seconds between
  the two events of the match \<open>{number: 1, start: 1000, end: 5000}\<close> are lost in the sum
  \<open>4.0 + 2.0 ** 60\<close>: the duration is 0, not 4 as with the offset 0, and the run skips
  the match.
\<close>

theorem duration_offset_counterexample:
  "duration (example_args\<lparr>offset := 1\<rparr>) 0 (example_match 1 0 1)
     = 2251799813685 / 2251799813685248 \<and>
   duration example_args 0 (example_match 1 0 1) = 1152921504606847 / 1152921504606846976 \<and>
   duration (example_args\<lparr>offset := 2 ^ 60\<rparr>) 1 (example_match 1 1000 5000) = 0 \<and>
   duration example_args 1 (example_match 1 1000 5000) = 4 \<and>
   (5000 - 1000) / 1000 + endOffset (example_args\<lparr>offset := 2 ^ 60\<rparr>)
      - startOffset (example_args\<lparr>offset := 2 ^ 60\<rparr>) = (4 :: rat) \<and>
   main tool_ok (example_env [example_match 1 1000 5000]) (example_args\<lparr>offset := 2 ^ 60\<rparr>) ()
     = (0, [Stdout (''Reference event time (from first match with '' @ [CHR 0x27] @ ''start'' @
                     [CHR 0x27] @ ''): 1.000 seconds''),
            Stderr ''Error: Invalid duration for match Match_1 (start: 1152921504606846976.000, end: 1152921504606846976.000). Skipping''],
        ())"
proof -
  let ?m = "example_match 1 1000 5000"
  let ?b = "example_args\<lparr>offset := 2 ^ 60\<rparr>"
  have small: "duration (example_args\<lparr>offset := 1\<rparr>) 0 (example_match 1 0 1)
      = 2251799813685 / 2251799813685248"
    by code_simp
  have small0: "duration example_args 0 (example_match 1 0 1)
      = 1152921504606847 / 1152921504606846976"
    by code_simp
  have d: "duration ?b 1 ?m = 0"
    by (simp add: example_simps)
  have d0: "duration example_args 1 ?m = 4"
    by (simp add: example_simps)
  have claim: "(5000 - 1000) / 1000 + endOffset ?b - startOffset ?b = (4 :: rat)"
    by (simp add: example_simps)
  have "main tool_ok (example_env [?m]) ?b ()
     = (0, [Stdout (''Reference event time (from first match with '' @ [CHR 0x27] @ ''start'' @
                     [CHR 0x27] @ ''): 1.000 seconds''),
            Stderr ''Error: Invalid duration for match Match_1 (start: 1152921504606846976.000, end: 1152921504606846976.000). Skipping''],
        ())"
    by (simp add: main_def find_reference_time_def sorted_matches_def filter_matches_def
        makedirs_log_def reference_line_def process_match_def invalid_duration_line_def
        example_simps)
  with small small0 d d0 claim show ?thesis by blast
qed

subsection \<open>C10: records without a number\<close>

text \<open>
  C10. A record without a \<open>number\<close> has the sort key 0, in the search for the reference
  time and in the order of processing, which sort by the same key: in the sorted list no
  record with a positive number stands before it, and it supplies the reference time when
  it has the start-event key and every other record that has the key has a positive
  number. A range leaves no such record in the filtered list. The loop of \<open>main\<close>
  runs over the filtered list sorted by that key.
\<close>

theorem missing_number_sorts_as_zero:
  "(\<forall>pre x post. sorted_matches ms = pre @ x # post \<and> number x = None \<longrightarrow>
      number_key x = 0 \<and> (\<forall>y\<in>set pre. \<forall>n. number y = Some n \<longrightarrow> n \<le> 0)) \<and>
   (\<forall>m\<in>set ms. number m = None \<and> events m k \<noteq> None \<and>
      (\<forall>x\<in>set ms. x \<noteq> m \<and> events x k \<noteq> None \<longrightarrow> (\<exists>n. number x = Some n \<and> 0 < n)) \<longrightarrow>
      find_reference_time ms k = Some (truediv (the (events m k)) 1000)) \<and>
   (\<forall>m\<in>set (filter_matches ms (Some (lo, hi))). number m \<noteq> None) \<and>
   (isfile e (json a) \<and> isfile e (video a) \<and> load_json e (json a) ''matches'' = Some ms \<and>
      find_reference_time (filter_matches ms (range_vals a)) (start_key a) = Some r \<longrightarrow>
      fst (snd (main tool e a w)) =
        makedirs_log e a @ [reference_line a r] @
        fst (process_matches tool a r (sort_key number_key (filter_matches ms (range_vals a))) w))"
proof -
  have a: "number_key x = 0 \<and> (\<forall>y\<in>set pre. \<forall>n. number y = Some n \<longrightarrow> n \<le> 0)"
    if "sorted_matches ms = pre @ x # post" "number x = None" for pre x post
  proof -
    from that(2) have x0: "number_key x = 0" by (simp add: number_key_def)
    from sorted_matches_sorted [of ms] that(1)
    have "\<forall>y\<in>set pre. number_key y \<le> number_key x"
      by (simp add: sorted_append)
    with x0 show ?thesis by (auto simp: number_key_def)
  qed
  have b: "find_reference_time ms k = Some (truediv (the (events m k)) 1000)"
    if m_in: "m \<in> set ms" and m_none: "number m = None" and m_key: "events m k \<noteq> None"
      and others: "\<forall>x\<in>set ms. x \<noteq> m \<and> events x k \<noteq> None \<longrightarrow>
        (\<exists>n. number x = Some n \<and> 0 < n)" for m
  proof -
    from m_in m_key have "\<exists>m\<in>set ms. events m k \<noteq> None" by blast
    from find_reference_time_split [OF this] obtain pre m' post where *:
      "ms = pre @ m' # post" "events m' k \<noteq> None"
      "\<forall>x\<in>set pre. events x k \<noteq> None \<longrightarrow> number_key m' < number_key x"
      "\<forall>x\<in>set post. events x k \<noteq> None \<longrightarrow> number_key m' \<le> number_key x"
      "find_reference_time ms k = Some (truediv (the (events m' k)) 1000)"
      by blast
    from m_none have m0: "number_key m = 0" by (simp add: number_key_def)
    from m_in *(1) have "m \<in> set pre \<or> m = m' \<or> m \<in> set post" by auto
    with *(3,4) m_key m0 have le: "number_key m' \<le> 0" by force
    have "m' = m"
    proof (rule ccontr)
      assume "m' \<noteq> m"
      moreover from *(1) have "m' \<in> set ms" by simp
      ultimately obtain n where "number m' = Some n" "0 < n"
        using others *(2) by blast
      with le show False by (simp add: number_key_def)
    qed
    with *(5) show ?thesis by simp
  qed
  have c: "\<forall>m\<in>set (filter_matches ms (Some (lo, hi))). number m \<noteq> None"
    by (simp add: filter_matches_def)
  have d: "fst (snd (main tool e a w)) =
        makedirs_log e a @ [reference_line a r] @
        fst (process_matches tool a r (sort_key number_key (filter_matches ms (range_vals a))) w)"
    if reach: "isfile e (json a)" "isfile e (video a)" "load_json e (json a) ''matches'' = Some ms"
      "find_reference_time (filter_matches ms (range_vals a)) (start_key a) = Some r"
  proof -
    obtain l w' where
      "process_matches tool a r (sorted_matches (filter_matches ms (range_vals a))) w = (l, w')"
      by (cases "process_matches tool a r (sorted_matches (filter_matches ms (range_vals a))) w")
    with main_reaches_loop [OF reach this] show ?thesis
      by (simp add: sorted_matches_def)
  qed
  from a b c d show ?thesis by blast
qed

theorem missing_number_sorts_as_zero_witness:
  "find_reference_time [example_match 1 1000 1500, unnumbered_match 500 900] ''start''
     = Some (truediv 500 1000) \<and>
   sorted_matches [example_match 1 1000 1500, unnumbered_match 500 900]
     = [unnumbered_match 500 900, example_match 1 1000 1500]"
proof -
  let ?ms = "[example_match 1 1000 1500, unnumbered_match 500 900]"
  have "unnumbered_match 500 900 \<in> set ?ms" by simp
  moreover have "number (unnumbered_match 500 900) = None \<and>
      events (unnumbered_match 500 900) ''start'' \<noteq> None \<and>
      (\<forall>x\<in>set ?ms. x \<noteq> unnumbered_match 500 900 \<and> events x ''start'' \<noteq> None \<longrightarrow>
         (\<exists>n. number x = Some n \<and> 0 < n))"
    by (simp add: unnumbered_match_def example_match_def)
  ultimately have "find_reference_time ?ms ''start'' =
      Some (truediv (the (events (unnumbered_match 500 900) ''start'')) 1000)"
    using missing_number_sorts_as_zero [of ?ms "''start''", THEN conjunct2, THEN conjunct1]
    by blast
  moreover have "sorted_matches ?ms = [unnumbered_match 500 900, example_match 1 1000 1500]"
    by (simp add: sorted_matches_def number_key_def unnumbered_match_def example_match_def)
  ultimately show ?thesis
    by (simp add: unnumbered_match_def)
qed

end
